theory Spec2Isabelle
  imports Main "HOL-Library.Char_ord" "HOL-Library.List_Lexorder"
begin

section \<open>Python values, errors and string operations\<close>

text \<open>
  The configuration of an app is a Python dict from string keys to scalars. The values
  that occur are strings, integers and \<open>None\<close>. Strings are byte strings; the
  order on them is the lexicographic order on the bytes, which is the order Python's
  \<open>sorted\<close> uses on \<open>str\<close>.
\<close>

datatype val = VStr string | VInt int | VNone

type_synonym conf = "string \<rightharpoonup> val"

datatype error =
    Exception string
  | KeyError string
  | ValueError
  | AttributeError
  | TypeError
  | IndexError
  | IOError string
  | NotImplementedError string

text \<open>
  \<open>s.split(c)\<close> for a one-character separator. A character other than the separator
  goes in front of the first piece of the rest; the rest always has a first piece, since
  the result is never the empty list.
\<close>

fun split_on :: "char \<Rightarrow> string \<Rightarrow> string list" where
  "split_on c [] = [[]]"
| "split_on c (x # xs) =
     (if x = c then [] # split_on c xs
      else (case split_on c xs of [] \<Rightarrow> [[x]] | piece # pieces \<Rightarrow> (x # piece) # pieces))"

text \<open>\<open>sep.join(xs)\<close>.\<close>

fun join :: "string \<Rightarrow> string list \<Rightarrow> string" where
  "join sep [] = []"
| "join sep [x] = x"
| "join sep (x # y # ys) = x @ sep @ join sep (y # ys)"

text \<open>\<open>s.replace(' ', '')\<close>: every space character is removed.\<close>

definition remove_spaces :: "string \<Rightarrow> string" where
  "remove_spaces s = filter (\<lambda>c. c \<noteq> CHR '' '') s"

text \<open>The \<open>%d\<close> conversion of an integer.\<close>

fun show_nat :: "nat \<Rightarrow> string" where
  "show_nat n =
     (if n < 10 then [''0123456789'' ! n]
      else show_nat (n div 10) @ [''0123456789'' ! (n mod 10)])"

declare show_nat.simps [simp del]

definition show_int :: "int \<Rightarrow> string" where
  "show_int i = (if i < 0 then CHR ''-'' # show_nat (nat (- i)) else show_nat (nat i))"

text \<open>The \<open>%s\<close> conversion of a configuration value.\<close>

fun py_str :: "val \<Rightarrow> string" where
  "py_str (VStr s) = s"
| "py_str (VInt i) = show_int i"
| "py_str VNone = ''None''"

text \<open>\<open>os.path.join(a, *p)\<close> of the POSIX path module.\<close>

definition path_join2 :: "string \<Rightarrow> string \<Rightarrow> string" where
  "path_join2 path b =
     (if take 1 b = ''/'' then b
      else if path = [] \<or> last path = CHR ''/'' then path @ b
      else path @ ''/'' @ b)"

definition os_path_join :: "string \<Rightarrow> string list \<Rightarrow> string" where
  "os_path_join a p = foldl path_join2 a p"

text \<open>The double quote and the newline, which the generated files contain.\<close>

definition dq :: string where
  "dq = [CHR 0x22]"

definition nl :: string where
  "nl = [CHR 0x0A]"

section \<open>The cluster and the app\<close>

text \<open>
  The Kerberos KDC app as the broker uses it: its configuration dict and
  \<open>add_principal(primary, host)\<close>, which returns the principal and the keytab path.
\<close>

record kdc_app =
  kdc_conf :: conf
  add_principal :: "string \<Rightarrow> string \<Rightarrow> string \<times> string"

text \<open>
  The cluster as the broker uses it: \<open>find_app\<close> for the two apps the broker looks
  up (the Zookeeper app is represented by its configuration dict), \<open>mkpath\<close>, and the
  ports that \<open>TcpPortAllocator(cluster).next()\<close> will hand out, in order.
\<close>

record cluster =
  zookeeper :: "conf option"
  kerberos :: "kdc_app option"
  port_supply :: "int list"
  mkpath :: "string \<Rightarrow> string"

text \<open>What the app has created on disk through its base class.\<close>

datatype artefact =
    File string string
  | Dir string
  | FromTemplate string "string option" bool

text \<open>
  The app object after the constructor of the base class has run: its cluster, its
  configuration dict, the name of its node, its own name, the environment of the
  process it will launch, the lines passed to \<open>self.log\<close>, the files it has created,
  the attributes \<open>zk\<close>, \<open>kerberos_principal\<close> and \<open>kerberos_keytab\<close>, and the
  surroundings that the base class and the operating system provide: where a created
  file lands, which templates exist, where a resource lies, which paths exist and what
  \<open>os.system\<close> returns for a command.
\<close>

record app =
  cluster :: cluster
  conf :: conf
  node_name :: string
  app_name :: string
  env :: "string \<rightharpoonup> string"
  logged :: "string list"
  created :: "artefact list"
  zk :: "conf option"
  kerberos_principal :: "string option"
  kerberos_keytab :: "string option"
  path_of :: "string \<Rightarrow> string"
  has_template :: "string \<Rightarrow> bool"
  resource_path :: "string \<Rightarrow> string"
  path_exists :: "string \<Rightarrow> bool"
  os_system :: "string \<Rightarrow> int"

subsection \<open>Operations of the base class and of the collaborators\<close>

text \<open>
  Modelled from the spec: \<open>PortAllocator.next() -> int\<close> returns a previously-unused
  TCP port for the cluster; exhaustion is a hard failure. The allocator is not part of
  the source file; the ports it will return are the list \<open>port_supply\<close>.
\<close>

definition next_port :: "app \<Rightarrow> error + (int \<times> app)" where
  "next_port a =
     (case port_supply (cluster a) of
        [] \<Rightarrow> Inl (Exception ''no free port'')
      | p # ps \<Rightarrow> Inr (p, a\<lparr>cluster := (cluster a)\<lparr>port_supply := ps\<rparr>\<rparr>))"

text \<open>
  Modelled from the spec: launcher environment variables are accumulated (not
  overwritten): multiple calls append to the same variable, space-joined, preserving
  call order. \<open>env_add\<close> belongs to the base class.
\<close>

definition env_add :: "string \<Rightarrow> string \<Rightarrow> app \<Rightarrow> app" where
  "env_add k v a =
     a\<lparr>env := (env a)(k \<mapsto> (case env a k of None \<Rightarrow> v | Some old \<Rightarrow> old @ '' '' @ v))\<rparr>"

text \<open>\<open>self.log(msg)\<close> of the base class: the message is recorded.\<close>

definition log :: "string \<Rightarrow> app \<Rightarrow> app" where
  "log msg a = a\<lparr>logged := logged a @ [msg]\<rparr>"

text \<open>
  Modelled from the spec: \<open>create_file(name, data) -> path\<close>,
  \<open>create_dir(name) -> path\<close> and
  \<open>create_file_from_template(name, conf, append_data?, subst=bool) -> path\<close> are
  side-effecting and return filesystem paths; failure to render a template is fatal.
  They belong to the base class.
\<close>

definition create_file :: "string \<Rightarrow> string \<Rightarrow> app \<Rightarrow> string \<times> app" where
  "create_file name data a = (path_of a name, a\<lparr>created := created a @ [File name data]\<rparr>)"

definition create_dir :: "string \<Rightarrow> app \<Rightarrow> string \<times> app" where
  "create_dir name a = (path_of a name, a\<lparr>created := created a @ [Dir name]\<rparr>)"

definition create_file_from_template ::
  "string \<Rightarrow> string option \<Rightarrow> bool \<Rightarrow> app \<Rightarrow> error + (string \<times> app)" where
  "create_file_from_template name append_data subst a =
     (if has_template a name
      then Inr (path_of a name, a\<lparr>created := created a @ [FromTemplate name append_data subst]\<rparr>)
      else Inl (IOError name))"

text \<open>
  Modelled from the spec: \<open>ServiceHandle.get(key, default) -> value\<close> reads a
  service's published configuration. \<open>get\<close> belongs to the base class.
\<close>

definition app_get :: "conf \<Rightarrow> string \<Rightarrow> val \<Rightarrow> val" where
  "app_get c k d = (case c k of None \<Rightarrow> d | Some v \<Rightarrow> v)"

text \<open>Sequencing of steps that may raise: the first exception ends the run.\<close>

definition and_then :: "error + 'a \<Rightarrow> ('a \<Rightarrow> error + 'b) \<Rightarrow> error + 'b" where
  "and_then m f = (case m of Inl e \<Rightarrow> Inl e | Inr x \<Rightarrow> f x)"

text \<open>
  \<open>conf.get(key, default)\<close> where the caller goes on to use the value as a string;
  \<open>err\<close> is what the caller's next operation raises on a value that is no string.
\<close>

definition get_string :: "conf \<Rightarrow> string \<Rightarrow> string \<Rightarrow> error \<Rightarrow> error + string" where
  "get_string c k d err =
     (case c k of None \<Rightarrow> Inr d | Some (VStr s) \<Rightarrow> Inr s | Some _ \<Rightarrow> Inl err)"

section \<open>The constructor of KafkaBrokerApp\<close>

subsection \<open>Dependency on Zookeeper and version name\<close>

text \<open>
  \<^verbatim>\<open>self.zk = cluster.find_app('ZookeeperApp')
if self.zk is None:
    raise Exception('ZookeeperApp required')\<close>
\<close>

definition find_zookeeper :: "app \<Rightarrow> error + app" where
  "find_zookeeper a =
     (let a1 = a\<lparr>zk := zookeeper (cluster a)\<rparr>
      in if zk a1 = None then Inl (Exception ''ZookeeperApp required'') else Inr a1)"

text \<open>
  \<^verbatim>\<open>if self.conf['version'] == 'master':
    self.conf['version'] = 'trunk'\<close>
\<close>

definition normalize_version :: "app \<Rightarrow> error + app" where
  "normalize_version a =
     (case conf a ''version'' of
        None \<Rightarrow> Inl (KeyError ''version'')
      | Some v \<Rightarrow>
          Inr (if v = VStr ''master'' then a\<lparr>conf := (conf a)(''version'' \<mapsto> VStr ''trunk'')\<rparr>
               else a))"

subsection \<open>Listeners\<close>

text \<open>\<^verbatim>\<open>listeners = self.conf.get('listeners', 'PLAINTEXT').split(',')\<close>\<close>

definition requested_listeners :: "conf \<Rightarrow> error + string list" where
  "requested_listeners c =
     and_then (get_string c ''listeners'' ''PLAINTEXT'' AttributeError)
       (\<lambda>s. Inr (split_on CHR '','' s))"

text \<open>
  \<^verbatim>\<open>sasl_mechs = [x for x in self.conf.get('sasl_mechanisms', '')
                  .replace(' ', '').split(',') if len(x) > 0]\<close>
\<close>

definition sasl_mechanisms :: "conf \<Rightarrow> error + string list" where
  "sasl_mechanisms c =
     and_then (get_string c ''sasl_mechanisms'' [] AttributeError)
       (\<lambda>s. Inr (filter (\<lambda>x. length x > 0) (split_on CHR '','' (remove_spaces s))))"

text \<open>
  \<^verbatim>\<open>if len(sasl_mechs) > 0:
    listeners.append('SASL_PLAINTEXT')\<close>
\<close>

definition add_sasl_listener :: "string list \<Rightarrow> string list \<Rightarrow> string list" where
  "add_sasl_listener listeners sasl_mechs =
     (if length sasl_mechs > 0 then listeners @ [''SASL_PLAINTEXT''] else listeners)"

text \<open>
  \<open>sorted(set(listeners))\<close>: the distinct elements in ascending order.
\<close>

definition sorted_set :: "string list \<Rightarrow> string list" where
  "sorted_set xs = sort (remdups xs)"

text \<open>
  \<^verbatim>\<open>ports = [(x, trivup.TcpPortAllocator(self.cluster).next())
         for x in sorted(set(listeners))]\<close>
  The comprehension, over the names in the order given.
\<close>

fun alloc_ports :: "string list \<Rightarrow> app \<Rightarrow> error + ((string \<times> int) list \<times> app)" where
  "alloc_ports [] a = Inr ([], a)"
| "alloc_ports (x # xs) a =
     and_then (next_port a) (\<lambda>(p, a1).
     and_then (alloc_ports xs a1) (\<lambda>(ports, a2). Inr ((x, p) # ports, a2)))"

text \<open>\<open>'%s://%s:%d' % (x[0], self.node.name, x[1])\<close>\<close>

definition listener_url :: "string \<Rightarrow> string \<times> int \<Rightarrow> string" where
  "listener_url node x = fst x @ ''://'' @ node @ '':'' @ show_int (snd x)"

text \<open>
  \<^verbatim>\<open>self.conf['port'] = ports[0][1] # "Default" port
self.conf['address'] = '%(nodename)s:%(port)d' % self.conf
self.conf['listeners'] = ','.join(['%s://%s:%d' % (x[0], self.node.name, x[1]) for x in ports])
self.conf['advertised.listeners'] = self.conf['listeners']\<close>
\<close>

definition publish_listeners :: "(string \<times> int) list \<Rightarrow> app \<Rightarrow> error + app" where
  "publish_listeners ports a =
     (case ports of
        [] \<Rightarrow> Inl IndexError
      | x # _ \<Rightarrow>
          let a1 = a\<lparr>conf := (conf a)(''port'' \<mapsto> VInt (snd x))\<rparr>
          in (case conf a1 ''nodename'' of
                None \<Rightarrow> Inl (KeyError ''nodename'')
              | Some n \<Rightarrow>
                  let a2 = a1\<lparr>conf := (conf a1)(''address'' \<mapsto>
                             VStr (py_str n @ '':'' @ show_int (snd x)))\<rparr>;
                      a3 = a2\<lparr>conf := (conf a2)(''listeners'' \<mapsto>
                             VStr (join '','' (map (listener_url (node_name a2)) ports)))\<rparr>
                  in (case conf a3 ''listeners'' of
                        None \<Rightarrow> Inl (KeyError ''listeners'')
                      | Some l \<Rightarrow> Inr (a3\<lparr>conf := (conf a3)(''advertised.listeners'' \<mapsto> l)\<rparr>))))"

definition create_listeners :: "string list \<Rightarrow> app \<Rightarrow> error + app" where
  "create_listeners listeners a =
     and_then (alloc_ports (sorted_set listeners) a) (\<lambda>(ports, a1). publish_listeners ports a1)"

subsection \<open>SASL\<close>

text \<open>
  \<^verbatim>\<open>for up in sasl_users.split(','):
    u,p = up.split('=')
    jaas_blob.append('user_%s="%s"' % (u, p))\<close>
  The unpacking raises ValueError unless the entry splits into exactly two parts.
\<close>

definition user_line :: "string \<Rightarrow> string \<Rightarrow> string" where
  "user_line u p = ''user_'' @ u @ ''='' @ dq @ p @ dq"

fun plain_user_lines :: "string list \<Rightarrow> string list \<Rightarrow> error + string list" where
  "plain_user_lines [] jaas_blob = Inr jaas_blob"
| "plain_user_lines (up # ups) jaas_blob =
     (case split_on CHR ''='' up of
        [u, p] \<Rightarrow> plain_user_lines ups (jaas_blob @ [user_line u p])
      | _ \<Rightarrow> Inl ValueError)"

text \<open>\<open>jaas_blob[-1] += ';'\<close>\<close>

definition add_to_last :: "string \<Rightarrow> string list \<Rightarrow> error + string list" where
  "add_to_last s xs = (if xs = [] then Inl IndexError else Inr (butlast xs @ [last xs @ s]))"

definition plain_warning :: string where
  "plain_warning = ''WARNING: No sasl_users configured for PLAIN, expected CSV of user=pass,..''"

definition plain_module :: string where
  "plain_module = ''org.apache.kafka.common.security.plain.PlainLoginModule required debug=true''"

text \<open>
  The body of \<open>if 'PLAIN' in sasl_mechs\<close>:
  \<^verbatim>\<open>sasl_users = self.conf.get('sasl_users', '')
if len(sasl_users) == 0:
    self.log('WARNING: No sasl_users configured for PLAIN, expected CSV of user=pass,..')
else:
    jaas_blob.append('org.apache.kafka.common.security.plain.PlainLoginModule required debug=true')
    for up in sasl_users.split(','):
        ...
    jaas_blob[-1] += ';'\<close>
\<close>

definition sasl_plain :: "app \<Rightarrow> string list \<Rightarrow> error + (app \<times> string list)" where
  "sasl_plain a jaas_blob =
     and_then (get_string (conf a) ''sasl_users'' [] TypeError) (\<lambda>sasl_users.
       if length sasl_users = 0 then Inr (log plain_warning a, jaas_blob)
       else
         and_then (plain_user_lines (split_on CHR '','' sasl_users) (jaas_blob @ [plain_module]))
           (\<lambda>jaas1. and_then (add_to_last '';'' jaas1) (\<lambda>jaas2. Inr (a, jaas2))))"

text \<open>
  The body of \<open>if 'GSSAPI' in sasl_mechs\<close>:
  \<^verbatim>\<open>conf_blob.append('sasl.kerberos.service.name=%s' % 'kafka')
kdc = self.cluster.find_app(KerberosKdcApp)
self.env_add('KRB5_CONFIG', kdc.conf['krb5_conf'])
self.env_add('KAFKA_OPTS', '-Djava.security.krb5.conf=%s' % kdc.conf['krb5_conf'])
self.env_add('KAFKA_OPTS', '-Dsun.security.krb5.debug=true')
self.kerberos_principal,self.kerberos_keytab = kdc.add_principal('kafka', self.node.name)
jaas_blob.append('com.sun.security.auth.module.Krb5LoginModule required')
jaas_blob.append('useKeyTab=true storeKey=true doNotPrompt=true')
jaas_blob.append('keyTab="%s"' % self.kerberos_keytab)
jaas_blob.append('debug=true')
jaas_blob.append('principal="%s";' % self.kerberos_principal)\<close>
  When \<open>find_app\<close> returns \<open>None\<close>, reading \<open>kdc.conf\<close> raises AttributeError.
\<close>

definition krb5_stanza :: "string \<Rightarrow> string \<Rightarrow> string list" where
  "krb5_stanza princ keytab =
     [''com.sun.security.auth.module.Krb5LoginModule required'',
      ''useKeyTab=true storeKey=true doNotPrompt=true'',
      ''keyTab='' @ dq @ keytab @ dq,
      ''debug=true'',
      ''principal='' @ dq @ princ @ dq @ '';'']"

definition sasl_gssapi ::
  "app \<Rightarrow> string list \<Rightarrow> string list \<Rightarrow> error + (app \<times> string list \<times> string list)" where
  "sasl_gssapi a conf_blob jaas_blob =
     (let conf_blob1 = conf_blob @ [''sasl.kerberos.service.name=kafka'']
      in case kerberos (cluster a) of
           None \<Rightarrow> Inl AttributeError
         | Some kdc \<Rightarrow>
             (case kdc_conf kdc ''krb5_conf'' of
                None \<Rightarrow> Inl (KeyError ''krb5_conf'')
              | Some krb5 \<Rightarrow>
                  let a1 = env_add ''KRB5_CONFIG'' (py_str krb5) a;
                      a2 = env_add ''KAFKA_OPTS'' (''-Djava.security.krb5.conf='' @ py_str krb5) a1;
                      a3 = env_add ''KAFKA_OPTS'' ''-Dsun.security.krb5.debug=true'' a2;
                      pk = add_principal kdc ''kafka'' (node_name a3);
                      a4 = a3\<lparr>kerberos_principal := Some (fst pk), kerberos_keytab := Some (snd pk)\<rparr>
                  in Inr (a4, conf_blob1, jaas_blob @ krb5_stanza (fst pk) (snd pk))))"

text \<open>
  \<^verbatim>\<open>if len(sasl_mechs) > 0:
    jaas_blob.append('KafkaServer {')
    conf_blob.append('sasl.enabled.mechanisms=%s' % ','.join(sasl_mechs))
    if 'PLAIN' in sasl_mechs:
        ...
    if 'GSSAPI' in sasl_mechs:
        ...
    jaas_blob.append('};\n')
    self.conf['jaas_file'] = self.create_file('jaas_broker.conf', data='\n'.join(jaas_blob))
    self.env_add('KAFKA_OPTS', '-Djava.security.auth.login.config=%s' % self.conf['jaas_file'])
    self.env_add('KAFKA_OPTS', '-Djava.security.debug=all')\<close>
  Both blobs are empty lists before this block. The result carries \<open>conf_blob\<close>, which
  the rendering of the properties file uses.
\<close>

definition write_jaas :: "string list \<Rightarrow> app \<Rightarrow> app" where
  "write_jaas jaas_blob a =
     (let jaas1 = jaas_blob @ [''};'' @ nl];
          pa = create_file ''jaas_broker.conf'' (join nl jaas1) a;
          a1 = (snd pa)\<lparr>conf := (conf (snd pa))(''jaas_file'' \<mapsto> VStr (fst pa))\<rparr>;
          a2 = env_add ''KAFKA_OPTS'' (''-Djava.security.auth.login.config='' @ fst pa) a1
      in env_add ''KAFKA_OPTS'' ''-Djava.security.debug=all'' a2)"

definition enabled_mechanisms :: "string list \<Rightarrow> string" where
  "enabled_mechanisms sasl_mechs = ''sasl.enabled.mechanisms='' @ join '','' sasl_mechs"

definition configure_sasl :: "string list \<Rightarrow> app \<Rightarrow> error + (app \<times> string list)" where
  "configure_sasl sasl_mechs a =
     (if length sasl_mechs > 0 then
        let jaas0 = [''KafkaServer {''];
            conf_blob0 = [enabled_mechanisms sasl_mechs]
        in and_then (if ''PLAIN'' \<in> set sasl_mechs then sasl_plain a jaas0 else Inr (a, jaas0))
             (\<lambda>(a1, jaas1).
           and_then (if ''GSSAPI'' \<in> set sasl_mechs then sasl_gssapi a1 conf_blob0 jaas1
                     else Inr (a1, conf_blob0, jaas1))
             (\<lambda>(a2, conf_blob2, jaas2). Inr (write_jaas jaas2 a2, conf_blob2)))
      else Inr (a, []))"

subsection \<open>Properties, log4j and the start command\<close>

text \<open>
  \<^verbatim>\<open>self.conf['log_dirs'] = self.create_dir('logs')
if 'num_partitions' not in self.conf:
    self.conf['num_partitions'] = 3
self.conf['zk_connect'] = self.zk.get('address', None)
if 'replication_factor' not in self.conf:
    self.conf['replication_factor'] = 1
self.conf['conf_file'] = self.create_file_from_template('server.properties',
                                                        self.conf,
                                                        append_data='\n'.join(conf_blob))
self.conf['log4j_file'] = self.create_file_from_template('log4j.properties', self.conf, subst=False)
self.env_add('KAFKA_LOG4J_OPTS', '-Dlog4j.configuration=file:%s' % self.conf['log4j_file'])\<close>
\<close>

definition set_default :: "string \<Rightarrow> val \<Rightarrow> app \<Rightarrow> app" where
  "set_default k v a = (if conf a k = None then a\<lparr>conf := (conf a)(k \<mapsto> v)\<rparr> else a)"

definition configure_properties :: "string list \<Rightarrow> app \<Rightarrow> error + app" where
  "configure_properties conf_blob a =
     (let pa = create_dir ''logs'' a;
          a1 = (snd pa)\<lparr>conf := (conf (snd pa))(''log_dirs'' \<mapsto> VStr (fst pa))\<rparr>;
          a2 = set_default ''num_partitions'' (VInt 3) a1
      in case zk a2 of
           None \<Rightarrow> Inl AttributeError
         | Some z \<Rightarrow>
             let a3 = a2\<lparr>conf := (conf a2)(''zk_connect'' \<mapsto> app_get z ''address'' VNone)\<rparr>;
                 a4 = set_default ''replication_factor'' (VInt 1) a3
             in and_then (create_file_from_template ''server.properties''
                            (Some (join nl conf_blob)) True a4) (\<lambda>(p5, a5).
                let a6 = a5\<lparr>conf := (conf a5)(''conf_file'' \<mapsto> VStr p5)\<rparr>
                in and_then (create_file_from_template ''log4j.properties'' None False a6)
                     (\<lambda>(p7, a7).
                   let a8 = a7\<lparr>conf := (conf a7)(''log4j_file'' \<mapsto> VStr p7)\<rparr>
                   in Inr (env_add ''KAFKA_LOG4J_OPTS''
                             (''-Dlog4j.configuration=file:'' @ p7) a8))))"

text \<open>
  \<^verbatim>\<open>if kafka_path:
    start_sh = os.path.join(kafka_path, 'bin', 'kafka-server-start.sh')
else:
    start_sh = 'kafka-server-start.sh'
self.conf['start_cmd'] = '%s %s' % (start_sh, self.conf['conf_file'])
self.conf['stop_cmd'] = None # Ctrl-C\<close>
  \<open>kafka_path\<close> is \<open>None\<close> or a string; the empty string is false as well.
\<close>

definition start_sh :: "string option \<Rightarrow> string" where
  "start_sh kafka_path =
     (case kafka_path of
        None \<Rightarrow> ''kafka-server-start.sh''
      | Some kp \<Rightarrow>
          if kp = [] then ''kafka-server-start.sh''
          else os_path_join kp [''bin'', ''kafka-server-start.sh''])"

definition set_commands :: "string option \<Rightarrow> app \<Rightarrow> error + app" where
  "set_commands kafka_path a =
     (case conf a ''conf_file'' of
        None \<Rightarrow> Inl (KeyError ''conf_file'')
      | Some cf \<Rightarrow>
          let a1 = a\<lparr>conf := (conf a)(''start_cmd'' \<mapsto>
                     VStr (start_sh kafka_path @ '' '' @ py_str cf))\<rparr>
          in Inr (a1\<lparr>conf := (conf a1)(''stop_cmd'' \<mapsto> VNone)\<rparr>))"

subsection \<open>The constructor\<close>

text \<open>
  \<open>KafkaBrokerApp.__init__\<close> from the point where the constructor of the base class
  has returned. The calls of \<open>self.dbg\<close> only print and are left out.
  \<open>self.conf['kafka_path'] = kafka_path\<close> stands between the listeners and SASL.
\<close>

definition init :: "string option \<Rightarrow> app \<Rightarrow> error + app" where
  "init kafka_path a =
     and_then (find_zookeeper a) (\<lambda>a1.
     and_then (normalize_version a1) (\<lambda>a2.
     and_then (requested_listeners (conf a2)) (\<lambda>listeners.
     and_then (sasl_mechanisms (conf a2)) (\<lambda>sasl_mechs.
     and_then (create_listeners (add_sasl_listener listeners sasl_mechs) a2) (\<lambda>a3.
     and_then (configure_sasl sasl_mechs
                 (a3\<lparr>conf := (conf a3)(''kafka_path'' \<mapsto>
                       (case kafka_path of None \<Rightarrow> VNone | Some kp \<Rightarrow> VStr kp))\<rparr>))
       (\<lambda>(a5, conf_blob).
     and_then (configure_properties conf_blob a5) (\<lambda>a6.
     set_commands kafka_path a6)))))))"

section \<open>Deployment\<close>

text \<open>
  \<open>deploy\<close> mutates the app and may raise; the result pairs what the call did (an
  exception or a normal return) with the app as the call leaves it.
  \<open>os.path.join\<close> raises TypeError on a component that is no string.
  \<^verbatim>\<open>destdir = os.path.join(self.cluster.mkpath(self.__class__.__name__), 'kafka', self.get('version'))
deploy_exec = self.resource_path('deploy.sh')
if not os.path.exists(deploy_exec):
    raise NotImplementedError('Kafka deploy.sh script missing in %s' % deploy_exec)
cmd = '%s %s "%s" "%s"' % (deploy_exec, self.get('version'), self.get('kafka_path'), destdir)
r = os.system(cmd)
if r != 0:
    raise Exception('Deploy "%s" returned exit code %d' % (cmd, r))
self.conf['start_cmd'] = '%s/bin/kafka-server-start.sh %s' % (destdir, self.conf['conf_file'])\<close>
\<close>

definition destdir :: "app \<Rightarrow> string \<Rightarrow> string" where
  "destdir a version = os_path_join (mkpath (cluster a) ''KafkaBrokerApp'') [''kafka'', version]"

definition deploy_cmd :: "app \<Rightarrow> string \<Rightarrow> string" where
  "deploy_cmd a version =
     resource_path a ''deploy.sh'' @ '' '' @ version @ '' '' @
     dq @ py_str (app_get (conf a) ''kafka_path'' VNone) @ dq @ '' '' @
     dq @ destdir a version @ dq"

definition deploy_failure :: "string \<Rightarrow> int \<Rightarrow> error" where
  "deploy_failure cmd r =
     Exception (''Deploy '' @ dq @ cmd @ dq @ '' returned exit code '' @ show_int r)"

definition deploy :: "app \<Rightarrow> (error + unit) \<times> app" where
  "deploy a =
     (case app_get (conf a) ''version'' VNone of
        VStr version \<Rightarrow>
          let deploy_exec = resource_path a ''deploy.sh''
          in if \<not> path_exists a deploy_exec
             then (Inl (NotImplementedError (''Kafka deploy.sh script missing in '' @ deploy_exec)), a)
             else
               let cmd = deploy_cmd a version;
                   r = os_system a cmd
               in if r \<noteq> 0 then (Inl (deploy_failure cmd r), a)
                  else (case conf a ''conf_file'' of
                          None \<Rightarrow> (Inl (KeyError ''conf_file''), a)
                        | Some cf \<Rightarrow>
                            (Inr (),
                             a\<lparr>conf := (conf a)(''start_cmd'' \<mapsto>
                                  VStr (destdir a version @ ''/bin/kafka-server-start.sh '' @
                                        py_str cf))\<rparr>))
      | _ \<Rightarrow> (Inl TypeError, a))"

section \<open>Notions used in the properties\<close>

text \<open>What a run of the constructor leaves behind, read off its result.\<close>

definition conf_of :: "error + app \<Rightarrow> string \<Rightarrow> val option" where
  "conf_of r k = (case r of Inl e \<Rightarrow> None | Inr a \<Rightarrow> conf a k)"

fun jaas_data :: "artefact list \<Rightarrow> string list" where
  "jaas_data [] = []"
| "jaas_data (File n d # xs) =
     (if n = ''jaas_broker.conf'' then d # jaas_data xs else jaas_data xs)"
| "jaas_data (Dir n # xs) = jaas_data xs"
| "jaas_data (FromTemplate n d b # xs) = jaas_data xs"

definition jaas_files :: "error + app \<Rightarrow> string list" where
  "jaas_files r = (case r of Inl e \<Rightarrow> [] | Inr a \<Rightarrow> jaas_data (created a))"

text \<open>
  The string under a configuration key, or the default where the key is absent (or
  holds no string, in which case the constructor raises).
\<close>

definition csv_of :: "conf \<Rightarrow> string \<Rightarrow> string \<Rightarrow> string" where
  "csv_of c k d = (case c k of Some (VStr s) \<Rightarrow> s | _ \<Rightarrow> d)"

text \<open>
  The listener set as the specification describes it: the union of the protocols of
  the listener CSV and of \<open>{SASL_PLAINTEXT}\<close>, the latter when a mechanism was
  requested, deduplicated and sorted.
\<close>

definition listener_names :: "string \<Rightarrow> string list \<Rightarrow> string list" where
  "listener_names l mechs =
     sorted_list_of_set
       (set (split_on CHR '','' l) \<union> (if mechs = [] then {} else {''SASL_PLAINTEXT''}))"

text \<open>
  The value of \<open>listeners\<close> when the ports are handed out to the given names in
  order: the i-th name gets the i-th port of the allocator.
\<close>

definition listeners_value :: "string list \<Rightarrow> app \<Rightarrow> string" where
  "listeners_value names a =
     join '','' (map (listener_url (node_name a)) (zip names (port_supply (cluster a))))"

text \<open>
  Parsing the mechanisms by stripping whitespace from each entry and dropping the
  empty ones, whitespace being what Python's \<open>str.strip\<close> removes.
\<close>

definition whitespace :: "char \<Rightarrow> bool" where
  "whitespace c = (c \<in> set [CHR '' '', CHR 0x09, CHR 0x0A, CHR 0x0B, CHR 0x0C, CHR 0x0D])"

definition strip :: "string \<Rightarrow> string" where
  "strip s = rev (dropWhile whitespace (rev (dropWhile whitespace s)))"

definition stripped_mechanisms :: "string \<Rightarrow> string list" where
  "stripped_mechanisms m = filter (\<lambda>x. x \<noteq> []) (map strip (split_on CHR '','' m))"

text \<open>Parsing the mechanisms as the constructor does.\<close>

definition unspaced_mechanisms :: "string \<Rightarrow> string list" where
  "unspaced_mechanisms m = filter (\<lambda>x. x \<noteq> []) (split_on CHR '','' (remove_spaces m))"

text \<open>
  The login configuration with the stanzas of the mechanisms in the order in which
  the mechanisms are listed, and with the PLAIN stanza before the Kerberos one.
\<close>

definition mechanism_stanza :: "string list \<Rightarrow> string list \<Rightarrow> string \<Rightarrow> string list" where
  "mechanism_stanza plain krb5 m =
     (if m = ''PLAIN'' then plain else if m = ''GSSAPI'' then krb5 else [])"

definition jaas_in_listed_order :: "string list \<Rightarrow> string list \<Rightarrow> string list \<Rightarrow> string" where
  "jaas_in_listed_order mechs plain krb5 =
     join nl ([''KafkaServer {''] @ concat (map (mechanism_stanza plain krb5) mechs) @
              [''};'' @ nl])"

definition jaas_plain_first :: "string list \<Rightarrow> string list \<Rightarrow> string" where
  "jaas_plain_first plain krb5 = join nl ([''KafkaServer {''] @ plain @ krb5 @ [''};'' @ nl])"

text \<open>
  The PLAIN stanza for a non-empty \<open>sasl_users\<close>: the module line and the user lines,
  the last line closed by a semicolon.
\<close>

definition plain_stanza :: "string list \<Rightarrow> string list" where
  "plain_stanza user_lines =
     butlast (plain_module # user_lines) @ [last (plain_module # user_lines) @ '';'']"

text \<open>The files which every successful run of the constructor creates at its end.\<close>

definition property_files :: "string list \<Rightarrow> artefact list" where
  "property_files conf_blob =
     [Dir ''logs'',
      FromTemplate ''server.properties'' (Some (join nl conf_blob)) True,
      FromTemplate ''log4j.properties'' None False]"

text \<open>
  What the constructor writes when it succeeds, in terms of the app it starts from:
  the user lines for a \<open>sasl_users\<close> CSV, the principal and keytab that the KDC
  issues for this node, the text of the login configuration, and the inline
  directives appended to the properties file.
\<close>

definition user_lines_of :: "string \<Rightarrow> string list" where
  "user_lines_of users =
     (case plain_user_lines (split_on CHR '','' users) [] of Inr ls \<Rightarrow> ls | Inl e \<Rightarrow> [])"

definition principal_of :: "app \<Rightarrow> string \<times> string" where
  "principal_of a =
     (case kerberos (cluster a) of
        Some kdc \<Rightarrow> add_principal kdc ''kafka'' (node_name a)
      | None \<Rightarrow> ([], []))"

definition expected_plain :: "string list \<Rightarrow> app \<Rightarrow> string list" where
  "expected_plain mechs a =
     (if ''PLAIN'' \<in> set mechs \<and> csv_of (conf a) ''sasl_users'' [] \<noteq> []
      then plain_stanza (user_lines_of (csv_of (conf a) ''sasl_users'' []))
      else [])"

definition expected_krb5 :: "string list \<Rightarrow> app \<Rightarrow> string list" where
  "expected_krb5 mechs a =
     (if ''GSSAPI'' \<in> set mechs then krb5_stanza (fst (principal_of a)) (snd (principal_of a))
      else [])"

definition expected_jaas :: "string list \<Rightarrow> app \<Rightarrow> artefact list" where
  "expected_jaas mechs a =
     (if mechs = [] then []
      else [File ''jaas_broker.conf''
              (jaas_plain_first (expected_plain mechs a) (expected_krb5 mechs a))])"

definition expected_conf_blob :: "string list \<Rightarrow> string list" where
  "expected_conf_blob mechs =
     (if mechs = [] then []
      else [enabled_mechanisms mechs] @
           (if ''GSSAPI'' \<in> set mechs then [''sasl.kerberos.service.name=kafka''] else []))"

definition expected_warning :: "string list \<Rightarrow> app \<Rightarrow> string list" where
  "expected_warning mechs a =
     (if ''PLAIN'' \<in> set mechs \<and> csv_of (conf a) ''sasl_users'' [] = [] then [plain_warning]
      else [])"

text \<open>
  When the constructor succeeds. It gets as far as the SASL block when the cluster has a
  Zookeeper app, \<open>version\<close> and \<open>nodename\<close> are set, \<open>listeners\<close> and
  \<open>sasl_mechanisms\<close> hold strings where they are set, and the allocator has a port
  for every listener. The PLAIN branch returns when \<open>sasl_users\<close> is empty or every
  entry of it has the form \<open>user=pass\<close>; the GSSAPI branch returns when the cluster has a
  KDC whose configuration names its \<open>krb5_conf\<close>. The rest returns when the two
  templates can be rendered.
\<close>

definition string_or_absent :: "conf \<Rightarrow> string \<Rightarrow> bool" where
  "string_or_absent c k = (case c k of None \<Rightarrow> True | Some (VStr s) \<Rightarrow> True | Some _ \<Rightarrow> False)"

definition reaches_sasl :: "app \<Rightarrow> bool" where
  "reaches_sasl a =
     (zookeeper (cluster a) \<noteq> None \<and> conf a ''version'' \<noteq> None \<and>
      conf a ''nodename'' \<noteq> None \<and>
      string_or_absent (conf a) ''listeners'' \<and>
      string_or_absent (conf a) ''sasl_mechanisms'' \<and>
      length (listener_names (csv_of (conf a) ''listeners'' ''PLAINTEXT'')
                (unspaced_mechanisms (csv_of (conf a) ''sasl_mechanisms'' [])))
        \<le> length (port_supply (cluster a)))"

definition plain_ok :: "app \<Rightarrow> bool" where
  "plain_ok a =
     (string_or_absent (conf a) ''sasl_users'' \<and>
      (csv_of (conf a) ''sasl_users'' [] = [] \<or>
       list_all (\<lambda>e. length (split_on CHR ''='' e) = 2)
         (split_on CHR '','' (csv_of (conf a) ''sasl_users'' []))))"

definition gssapi_ok :: "app \<Rightarrow> bool" where
  "gssapi_ok a =
     (case kerberos (cluster a) of
        None \<Rightarrow> False
      | Some kdc \<Rightarrow> kdc_conf kdc ''krb5_conf'' \<noteq> None)"

definition renders :: "app \<Rightarrow> bool" where
  "renders a = (has_template a ''server.properties'' \<and> has_template a ''log4j.properties'')"

definition constructible :: "app \<Rightarrow> bool" where
  "constructible a =
     (reaches_sasl a \<and> renders a \<and>
      (''PLAIN'' \<in> set (unspaced_mechanisms (csv_of (conf a) ''sasl_mechanisms'' []))
         \<longrightarrow> plain_ok a) \<and>
      (''GSSAPI'' \<in> set (unspaced_mechanisms (csv_of (conf a) ''sasl_mechanisms'' []))
         \<longrightarrow> gssapi_ok a))"

subsection \<open>A small cluster to run the constructor on\<close>

definition example_kdc :: kdc_app where
  "example_kdc =
     \<lparr>kdc_conf = [''krb5_conf'' \<mapsto> VStr ''/kdc/krb5.conf''],
      add_principal = (\<lambda>p h. (p @ ''/'' @ h @ ''@REALM'', ''/kdc/'' @ p @ ''.keytab''))\<rparr>"

definition example_cluster :: cluster where
  "example_cluster =
     \<lparr>zookeeper = Some [''address'' \<mapsto> VStr ''localhost:2181''],
      kerberos = Some example_kdc,
      port_supply = [9092, 9093, 9094],
      mkpath = (\<lambda>n. ''/cluster/'' @ n)\<rparr>"

definition example_conf :: conf where
  "example_conf = [''version'' \<mapsto> VStr ''0.9.0.1'', ''nodename'' \<mapsto> VStr ''localhost'']"

definition example_app :: "conf \<Rightarrow> app" where
  "example_app c =
     \<lparr>cluster = example_cluster, conf = c, node_name = ''localhost'',
      app_name = ''KafkaBrokerApp'', env = Map.empty, logged = [], created = [],
      zk = None, kerberos_principal = None, kerberos_keytab = None,
      path_of = (\<lambda>n. ''/app/'' @ n), has_template = (\<lambda>n. True),
      resource_path = (\<lambda>n. ''/share/'' @ n), path_exists = (\<lambda>p. True),
      os_system = (\<lambda>cmd. 256)\<rparr>"

text \<open>Configurations of the example app for the SASL cases.\<close>

definition plain_no_users_conf :: conf where
  "plain_no_users_conf =
     example_conf(''sasl_mechanisms'' \<mapsto> VStr ''PLAIN'', ''sasl_users'' \<mapsto> VStr [])"

definition alice_bob_conf :: conf where
  "alice_bob_conf =
     example_conf(''sasl_mechanisms'' \<mapsto> VStr ''PLAIN'',
                  ''sasl_users'' \<mapsto> VStr ''alice=secret,bob=pw'')"

definition gssapi_plain_conf :: conf where
  "gssapi_plain_conf =
     example_conf(''sasl_mechanisms'' \<mapsto> VStr ''GSSAPI,PLAIN'',
                  ''sasl_users'' \<mapsto> VStr ''alice=secret'')"

definition gssapi_conf :: conf where
  "gssapi_conf = example_conf(''sasl_mechanisms'' \<mapsto> VStr ''GSSAPI'')"

definition bad_users_conf :: conf where
  "bad_users_conf =
     example_conf(''sasl_mechanisms'' \<mapsto> VStr ''PLAIN'',
                  ''sasl_users'' \<mapsto> VStr ''alice=secret,bob'')"

text \<open>The example app asking for GSSAPI in a cluster without a KDC app.\<close>

definition gssapi_no_kdc_app :: app where
  "gssapi_no_kdc_app = (example_app gssapi_conf)\<lparr>cluster := example_cluster\<lparr>kerberos := None\<rparr>\<rparr>"

text \<open>
  The configuration of the example app as a run of the constructor without
  \<open>kafka_path\<close> leaves its keys that deployment reads.
\<close>

definition configured_conf :: conf where
  "configured_conf =
     example_conf(''kafka_path'' \<mapsto> VNone,
                  ''conf_file'' \<mapsto> VStr ''/app/server.properties'',
                  ''start_cmd'' \<mapsto> VStr ''kafka-server-start.sh /app/server.properties'',
                  ''stop_cmd'' \<mapsto> VNone)"

text \<open>The lines of a text that start with \<open>user_\<close>.\<close>

definition user_lines_in :: "string \<Rightarrow> string list" where
  "user_lines_in text = filter (\<lambda>l. take 5 l = ''user_'') (split_on CHR 0x0A text)"

section \<open>Basic facts\<close>

lemma and_then_Inl [simp]: "and_then (Inl e) f = Inl e"
  by (simp add: and_then_def)

lemma and_then_Inr [simp]: "and_then (Inr x) f = f x"
  by (simp add: and_then_def)

lemma and_then_eq_Inr: "(and_then m f = Inr y) = (\<exists>x. m = Inr x \<and> f x = Inr y)"
  by (cases m) simp_all

lemma and_then_eq_Inl: "(and_then m f = Inl e) = (m = Inl e \<or> (\<exists>x. m = Inr x \<and> f x = Inl e))"
  by (cases m) simp_all

lemma split_on_not_Nil [simp]: "split_on c s \<noteq> []"
  by (induction s) (simp_all split: list.splits)

lemma length_split_on: "length (split_on c s) = Suc (count_list s c)"
  by (induction s) (auto split: list.splits)

lemma sorted_set_eq: "sorted_set xs = sorted_list_of_set (set xs)"
  by (simp add: sorted_set_def sorted_list_of_set_sort_remdups)

lemma set_sorted_set [simp]: "set (sorted_set xs) = set xs"
  by (simp add: sorted_set_def)

lemma sorted_set_Nil [simp]: "(sorted_set xs = []) = (xs = [])"
  using set_sorted_set [of xs] by (metis set_empty)

lemma sorted_sorted_set: "sorted (sorted_set xs)"
  by (simp add: sorted_set_def)

lemma distinct_sorted_set: "distinct (sorted_set xs)"
  by (simp add: sorted_set_def)

lemma hd_sorted_set_least:
  assumes "x \<in> set xs" shows "hd (sorted_set xs) \<le> x"
proof -
  from assms have ne: "sorted_set xs \<noteq> []" by auto
  then obtain y ys where ys: "sorted_set xs = y # ys" by (cases "sorted_set xs") auto
  from assms have "x \<in> set (sorted_set xs)" by simp
  with ys sorted_sorted_set [of xs] show ?thesis by auto
qed

lemma alloc_ports_Inr:
  "alloc_ports xs a = Inr (ports, a') \<Longrightarrow>
     length xs \<le> length (port_supply (cluster a)) \<and>
     ports = zip xs (port_supply (cluster a)) \<and>
     a' = a\<lparr>cluster := (cluster a)\<lparr>port_supply := drop (length xs) (port_supply (cluster a))\<rparr>\<rparr>"
proof (induction xs arbitrary: a ports a')
  case Nil
  then show ?case by simp
next
  case (Cons x xs)
  from Cons.prems obtain p a1 ps a2 where
    np: "next_port a = Inr (p, a1)" and rec: "alloc_ports xs a1 = Inr (ps, a2)"
    and res: "ports = (x, p) # ps" "a' = a2"
    by (auto simp: and_then_eq_Inr)
  from np obtain rest where sup: "port_supply (cluster a) = p # rest"
    and a1: "a1 = a\<lparr>cluster := (cluster a)\<lparr>port_supply := rest\<rparr>\<rparr>"
    by (auto simp: next_port_def split: list.splits)
  from Cons.IH [OF rec] sup a1 res show ?case by simp
qed

lemma alloc_ports_enough:
  "length xs \<le> length (port_supply (cluster a)) \<Longrightarrow> \<exists>r. alloc_ports xs a = Inr r"
proof (induction xs arbitrary: a)
  case Nil
  then show ?case by simp
next
  case (Cons x xs)
  then obtain p rest where sup: "port_supply (cluster a) = p # rest"
    by (cases "port_supply (cluster a)") auto
  let ?a1 = "a\<lparr>cluster := (cluster a)\<lparr>port_supply := rest\<rparr>\<rparr>"
  from Cons.prems sup have "length xs \<le> length (port_supply (cluster ?a1))" by simp
  from Cons.IH [OF this] obtain r where "alloc_ports xs ?a1 = Inr r" by blast
  with sup show ?case by (cases r) (simp add: next_port_def)
qed

lemmas init_defs = init_def find_zookeeper_def normalize_version_def requested_listeners_def
  sasl_mechanisms_def get_string_def add_sasl_listener_def create_listeners_def sorted_set_def
  next_port_def publish_listeners_def listener_url_def configure_sasl_def sasl_plain_def
  sasl_gssapi_def write_jaas_def create_file_def create_dir_def create_file_from_template_def
  configure_properties_def set_default_def set_commands_def start_sh_def app_get_def
  env_add_def log_def remove_spaces_def add_to_last_def user_line_def krb5_stanza_def
  enabled_mechanisms_def Let_def

lemmas example_defs = example_app_def example_conf_def example_cluster_def example_kdc_def

lemma listener_names_eq:
  "listener_names l mechs = sorted_set (add_sasl_listener (split_on CHR '','' l) mechs)"
  by (simp add: listener_names_def sorted_set_eq add_sasl_listener_def)

section \<open>The steps of the constructor\<close>

lemma env_add_fields [simp]:
  "conf (env_add k v a) = conf a"
  "cluster (env_add k v a) = cluster a"
  "node_name (env_add k v a) = node_name a"
  "logged (env_add k v a) = logged a"
  "created (env_add k v a) = created a"
  "zk (env_add k v a) = zk a"
  "path_of (env_add k v a) = path_of a"
  "has_template (env_add k v a) = has_template a"
  by (simp_all add: env_add_def)

lemma log_fields [simp]:
  "conf (log m a) = conf a"
  "cluster (log m a) = cluster a"
  "node_name (log m a) = node_name a"
  "logged (log m a) = logged a @ [m]"
  "created (log m a) = created a"
  "zk (log m a) = zk a"
  "path_of (log m a) = path_of a"
  "has_template (log m a) = has_template a"
  by (simp_all add: log_def)

lemma find_zookeeper_None:
  "zookeeper (cluster a) = None \<Longrightarrow> find_zookeeper a = Inl (Exception ''ZookeeperApp required'')"
  by (simp add: find_zookeeper_def)

lemma find_zookeeper_Some:
  "zookeeper (cluster a) = Some z \<Longrightarrow> find_zookeeper a = Inr (a\<lparr>zk := Some z\<rparr>)"
  by (simp add: find_zookeeper_def)

lemma find_zookeeper_Inr:
  "find_zookeeper a = Inr a1 \<Longrightarrow> \<exists>z. zookeeper (cluster a) = Some z \<and> a1 = a\<lparr>zk := Some z\<rparr>"
  by (cases "zookeeper (cluster a)") (simp_all add: find_zookeeper_None find_zookeeper_Some)

lemma normalize_version_Inr:
  assumes "normalize_version a = Inr a2"
  shows "\<exists>v. conf a ''version'' = Some v \<and>
           a2 = a\<lparr>conf := (conf a)(''version'' \<mapsto> (if v = VStr ''master'' then VStr ''trunk'' else v))\<rparr>"
proof (cases "conf a ''version''")
  case None
  with assms show ?thesis by (simp add: normalize_version_def)
next
  case (Some v)
  then have "(conf a)(''version'' \<mapsto> v) = conf a" by (rule map_upd_triv)
  with Some assms show ?thesis by (auto simp: normalize_version_def)
qed

lemma normalize_version_Some:
  "conf a ''version'' = Some v \<Longrightarrow> \<exists>a2. normalize_version a = Inr a2"
  by (simp add: normalize_version_def)

lemma requested_listeners_Inr:
  "requested_listeners c = Inr ls \<Longrightarrow> ls = split_on CHR '','' (csv_of c ''listeners'' ''PLAINTEXT'')"
  by (auto simp: requested_listeners_def get_string_def csv_of_def and_then_eq_Inr
           split: option.splits val.splits)

lemma sasl_mechanisms_Inr:
  "sasl_mechanisms c = Inr mechs \<Longrightarrow> mechs = unspaced_mechanisms (csv_of c ''sasl_mechanisms'' [])"
  by (auto simp: sasl_mechanisms_def get_string_def csv_of_def and_then_eq_Inr
                 unspaced_mechanisms_def
           split: option.splits val.splits)

lemma requested_listeners_version [simp]:
  "requested_listeners (c(''version'' \<mapsto> v)) = requested_listeners c"
  by (simp add: requested_listeners_def get_string_def)

lemma sasl_mechanisms_version [simp]:
  "sasl_mechanisms (c(''version'' \<mapsto> v)) = sasl_mechanisms c"
  by (simp add: sasl_mechanisms_def get_string_def)

lemma publish_listeners_Inr:
  assumes "publish_listeners ports a = Inr a'"
  shows "\<exists>n x rest. ports = x # rest \<and> conf a ''nodename'' = Some n \<and>
           a' = a\<lparr>conf := (conf a)
                  (''port'' \<mapsto> VInt (snd x),
                   ''address'' \<mapsto> VStr (py_str n @ '':'' @ show_int (snd x)),
                   ''listeners'' \<mapsto> VStr (join '','' (map (listener_url (node_name a)) ports)),
                   ''advertised.listeners'' \<mapsto>
                      VStr (join '','' (map (listener_url (node_name a)) ports)))\<rparr>"
  using assms
  by (auto simp: publish_listeners_def Let_def split: list.splits option.splits)

lemma create_listeners_Inr:
  assumes "create_listeners listeners a = Inr a'"
  shows "\<exists>n p rest. port_supply (cluster a) = p # rest \<and>
           length (sorted_set listeners) \<le> length (port_supply (cluster a)) \<and>
           conf a ''nodename'' = Some n \<and>
           a' = a\<lparr>cluster := (cluster a)\<lparr>port_supply :=
                      drop (length (sorted_set listeners)) (port_supply (cluster a))\<rparr>,
                  conf := (conf a)
                  (''port'' \<mapsto> VInt p,
                   ''address'' \<mapsto> VStr (py_str n @ '':'' @ show_int p),
                   ''listeners'' \<mapsto> VStr (listeners_value (sorted_set listeners) a),
                   ''advertised.listeners'' \<mapsto> VStr (listeners_value (sorted_set listeners) a))\<rparr>"
proof -
  from assms obtain ports a1 where
    al: "alloc_ports (sorted_set listeners) a = Inr (ports, a1)"
    and pu: "publish_listeners ports a1 = Inr a'"
    by (auto simp: create_listeners_def and_then_eq_Inr)
  note A = alloc_ports_Inr [OF al]
  from publish_listeners_Inr [OF pu] obtain n x rest where
    P: "ports = x # rest" "conf a1 ''nodename'' = Some n"
       "a' = a1\<lparr>conf := (conf a1)
                  (''port'' \<mapsto> VInt (snd x),
                   ''address'' \<mapsto> VStr (py_str n @ '':'' @ show_int (snd x)),
                   ''listeners'' \<mapsto> VStr (join '','' (map (listener_url (node_name a1)) ports)),
                   ''advertised.listeners'' \<mapsto>
                      VStr (join '','' (map (listener_url (node_name a1)) ports)))\<rparr>"
    by blast
  from A P(1) obtain y ys p ps where
    yp: "sorted_set listeners = y # ys" "port_supply (cluster a) = p # ps" "x = (y, p)"
    by (cases "sorted_set listeners"; cases "port_supply (cluster a)") auto
  from A P yp show ?thesis
    by (simp add: listeners_value_def)
qed


lemma plain_user_lines_acc:
  "plain_user_lines ups acc = and_then (plain_user_lines ups []) (\<lambda>ls. Inr (acc @ ls))"
proof (induction ups arbitrary: acc)
  case Nil
  then show ?case by simp
next
  case (Cons up ups)
  show ?case
  proof (cases "\<exists>u p. split_on CHR ''='' up = [u, p]")
    case True
    then obtain u p where up: "split_on CHR ''='' up = [u, p]" by blast
    have "plain_user_lines (up # ups) acc = plain_user_lines ups (acc @ [user_line u p])"
      using up by simp
    also have "\<dots> = and_then (plain_user_lines ups []) (\<lambda>ls. Inr ((acc @ [user_line u p]) @ ls))"
      by (rule Cons.IH)
    finally have L: "plain_user_lines (up # ups) acc =
        and_then (plain_user_lines ups []) (\<lambda>ls. Inr (acc @ user_line u p # ls))"
      by simp
    have "plain_user_lines (up # ups) [] = plain_user_lines ups [user_line u p]"
      using up by simp
    also have "\<dots> = and_then (plain_user_lines ups []) (\<lambda>ls. Inr ([user_line u p] @ ls))"
      by (rule Cons.IH)
    finally have R: "plain_user_lines (up # ups) [] =
        and_then (plain_user_lines ups []) (\<lambda>ls. Inr (user_line u p # ls))"
      by simp
    show ?thesis
      unfolding L R by (cases "plain_user_lines ups []") simp_all
  next
    case False
    then have "plain_user_lines (up # ups) acc' = Inl ValueError" for acc'
      by (auto split: list.splits)
    then show ?thesis by simp
  qed
qed

lemma plain_user_lines_length:
  "plain_user_lines ups [] = Inr ls \<Longrightarrow> length ls = length ups"
proof (induction ups arbitrary: ls)
  case Nil
  then show ?case by simp
next
  case (Cons up ups)
  from Cons.prems obtain u p where up: "split_on CHR ''='' up = [u, p]"
    by (auto split: list.splits)
  with Cons.prems have "plain_user_lines ups [user_line u p] = Inr ls" by simp
  then obtain ls' where "plain_user_lines ups [] = Inr ls'" "ls = user_line u p # ls'"
    by (subst (asm) plain_user_lines_acc) (auto simp: and_then_eq_Inr)
  with Cons.IH show ?case by simp
qed

lemma plain_user_lines_bad:
  "e \<in> set ups \<Longrightarrow> length (split_on CHR ''='' e) \<noteq> 2 \<Longrightarrow> plain_user_lines ups acc = Inl ValueError"
proof (induction ups arbitrary: acc)
  case Nil
  then show ?case by simp
next
  case (Cons up ups)
  show ?case
  proof (cases "\<exists>u p. split_on CHR ''='' up = [u, p]")
    case True
    then obtain u p where up: "split_on CHR ''='' up = [u, p]" by blast
    with Cons.prems have "e \<in> set ups" by auto
    from Cons.IH [OF this Cons.prems(2)] up show ?thesis by simp
  next
    case False
    then show ?thesis by (auto split: list.splits)
  qed
qed

lemma get_string_csv:
  "get_string c k d err = Inr s \<Longrightarrow> s = csv_of c k d"
  by (auto simp: get_string_def csv_of_def split: option.splits val.splits)

lemma get_string_Some [simp]: "c k = Some (VStr s) \<Longrightarrow> get_string c k d err = Inr s"
  by (simp add: get_string_def)

lemma get_string_None [simp]: "c k = None \<Longrightarrow> get_string c k d err = Inr d"
  by (simp add: get_string_def)

lemma sasl_plain_Inr:
  assumes "sasl_plain a jaas = Inr (a', jaas')"
  shows "(csv_of (conf a) ''sasl_users'' [] = [] \<and> a' = log plain_warning a \<and> jaas' = jaas) \<or>
         (csv_of (conf a) ''sasl_users'' [] \<noteq> [] \<and> a' = a \<and>
          (\<exists>ls. plain_user_lines (split_on CHR '','' (csv_of (conf a) ''sasl_users'' [])) [] = Inr ls \<and>
                jaas' = jaas @ plain_stanza ls))"
proof -
  from assms obtain users where
    g: "get_string (conf a) ''sasl_users'' [] TypeError = Inr users"
    and r: "(if length users = 0 then Inr (log plain_warning a, jaas)
             else and_then (plain_user_lines (split_on CHR '','' users) (jaas @ [plain_module]))
                    (\<lambda>jaas1. and_then (add_to_last '';'' jaas1) (\<lambda>jaas2. Inr (a, jaas2)))) =
            Inr (a', jaas')"
    by (auto simp: sasl_plain_def and_then_eq_Inr)
  from g have u: "users = csv_of (conf a) ''sasl_users'' []" by (rule get_string_csv)
  show ?thesis
  proof (cases "users = []")
    case True
    with r u show ?thesis by simp
  next
    case False
    with r obtain jaas1 where
      p: "plain_user_lines (split_on CHR '','' users) (jaas @ [plain_module]) = Inr jaas1"
      and l: "add_to_last '';'' jaas1 = Inr jaas'" and a: "a' = a"
      by (auto simp: and_then_eq_Inr)
    from p obtain ls where
      ls: "plain_user_lines (split_on CHR '','' users) [] = Inr ls"
      and j1: "jaas1 = (jaas @ [plain_module]) @ ls"
      by (subst (asm) plain_user_lines_acc) (auto simp: and_then_eq_Inr)
    from l j1 have "jaas' = jaas @ plain_stanza ls"
      by (simp add: add_to_last_def plain_stanza_def butlast_append)
    with False u ls a show ?thesis by auto
  qed
qed

lemma sasl_gssapi_Inr:
  assumes "sasl_gssapi a cb jaas = Inr (a', cb', jaas')"
  shows "\<exists>kdc. kerberos (cluster a) = Some kdc \<and>
           jaas' = jaas @ krb5_stanza (fst (add_principal kdc ''kafka'' (node_name a)))
                                      (snd (add_principal kdc ''kafka'' (node_name a))) \<and>
           cb' = cb @ [''sasl.kerberos.service.name=kafka''] \<and>
           conf a' = conf a \<and> cluster a' = cluster a \<and> node_name a' = node_name a \<and>
           logged a' = logged a \<and> created a' = created a \<and> zk a' = zk a \<and>
           path_of a' = path_of a \<and> has_template a' = has_template a"
  using assms
  by (auto simp: sasl_gssapi_def Let_def split: option.splits)

lemma sasl_gssapi_no_kdc:
  "kerberos (cluster a) = None \<Longrightarrow> sasl_gssapi a cb jaas = Inl AttributeError"
  by (simp add: sasl_gssapi_def)

lemma write_jaas_fields [simp]:
  "cluster (write_jaas jaas a) = cluster a"
  "node_name (write_jaas jaas a) = node_name a"
  "logged (write_jaas jaas a) = logged a"
  "zk (write_jaas jaas a) = zk a"
  "path_of (write_jaas jaas a) = path_of a"
  "has_template (write_jaas jaas a) = has_template a"
  "created (write_jaas jaas a) =
     created a @ [File ''jaas_broker.conf'' (join nl (jaas @ [''};'' @ nl]))]"
  "conf (write_jaas jaas a) = (conf a)(''jaas_file'' \<mapsto> VStr (path_of a ''jaas_broker.conf''))"
  by (simp_all add: write_jaas_def create_file_def Let_def)

lemma configure_sasl_Nil [simp]: "configure_sasl [] a = Inr (a, [])"
  by (simp add: configure_sasl_def)

lemma csv_of_upd [simp]: "k \<noteq> k' \<Longrightarrow> csv_of (c(k \<mapsto> v)) k' d = csv_of c k' d"
  by (simp add: csv_of_def)

lemma principal_of_Some:
  "kerberos (cluster a) = Some kdc \<Longrightarrow> principal_of a = add_principal kdc ''kafka'' (node_name a)"
  by (simp add: principal_of_def)

lemma user_lines_of_Inr:
  "plain_user_lines (split_on CHR '','' users) [] = Inr ls \<Longrightarrow> user_lines_of users = ls"
  by (simp add: user_lines_of_def)

lemma configure_sasl_Inr:
  assumes "configure_sasl mechs a = Inr (a', blob)"
  shows "cluster a' = cluster a \<and> node_name a' = node_name a \<and> zk a' = zk a \<and>
         path_of a' = path_of a \<and> has_template a' = has_template a \<and>
         (\<forall>k. k \<noteq> ''jaas_file'' \<longrightarrow> conf a' k = conf a k) \<and>
         logged a' = logged a @ expected_warning mechs a \<and>
         created a' = created a @ expected_jaas mechs a \<and>
         blob = expected_conf_blob mechs \<and>
         (''GSSAPI'' \<in> set mechs \<longrightarrow> kerberos (cluster a) \<noteq> None)"
proof (cases "mechs = []")
  case True
  with assms show ?thesis
    by (simp add: expected_warning_def expected_jaas_def expected_conf_blob_def)
next
  case False
  let ?j0 = "[''KafkaServer {'']"
  let ?c0 = "[enabled_mechanisms mechs]"
  from assms False obtain a1 jaas1 a2 cb2 jaas2 where
    p: "(if ''PLAIN'' \<in> set mechs then sasl_plain a ?j0 else Inr (a, ?j0)) = Inr (a1, jaas1)"
    and g: "(if ''GSSAPI'' \<in> set mechs then sasl_gssapi a1 ?c0 jaas1 else Inr (a1, ?c0, jaas1)) =
              Inr (a2, cb2, jaas2)"
    and w: "a' = write_jaas jaas2 a2" and b: "blob = cb2"
    by (auto simp: configure_sasl_def Let_def and_then_eq_Inr)
  have P: "conf a1 = conf a \<and> cluster a1 = cluster a \<and> node_name a1 = node_name a \<and>
           zk a1 = zk a \<and> path_of a1 = path_of a \<and> has_template a1 = has_template a \<and>
           created a1 = created a \<and> logged a1 = logged a @ expected_warning mechs a \<and>
           jaas1 = ?j0 @ expected_plain mechs a"
  proof (cases "''PLAIN'' \<in> set mechs")
    case True
    with p have "sasl_plain a ?j0 = Inr (a1, jaas1)" by simp
    from sasl_plain_Inr [OF this] True show ?thesis
      by (auto simp: expected_warning_def expected_plain_def user_lines_of_Inr)
  next
    case False
    with p show ?thesis by (simp add: expected_warning_def expected_plain_def)
  qed
  have G: "conf a2 = conf a1 \<and> cluster a2 = cluster a1 \<and> node_name a2 = node_name a1 \<and>
           zk a2 = zk a1 \<and> path_of a2 = path_of a1 \<and> has_template a2 = has_template a1 \<and>
           created a2 = created a1 \<and> logged a2 = logged a1 \<and>
           jaas2 = jaas1 @ expected_krb5 mechs a1 \<and> cb2 = expected_conf_blob mechs \<and>
           (''GSSAPI'' \<in> set mechs \<longrightarrow> kerberos (cluster a1) \<noteq> None)"
  proof (cases "''GSSAPI'' \<in> set mechs")
    case True
    with g have "sasl_gssapi a1 ?c0 jaas1 = Inr (a2, cb2, jaas2)" by simp
    from sasl_gssapi_Inr [OF this] True \<open>mechs \<noteq> []\<close> show ?thesis
      by (auto simp: expected_krb5_def expected_conf_blob_def principal_of_Some)
  next
    case False
    with g \<open>mechs \<noteq> []\<close> show ?thesis by (simp add: expected_krb5_def expected_conf_blob_def)
  qed
  have K: "expected_krb5 mechs a1 = expected_krb5 mechs a"
    using P by (auto simp: expected_krb5_def principal_of_def split: option.splits)
  from P G K w b \<open>mechs \<noteq> []\<close> show ?thesis
    by (simp add: expected_jaas_def jaas_plain_first_def)
qed

lemma set_default_fields [simp]:
  "cluster (set_default k v a) = cluster a"
  "node_name (set_default k v a) = node_name a"
  "logged (set_default k v a) = logged a"
  "created (set_default k v a) = created a"
  "zk (set_default k v a) = zk a"
  "path_of (set_default k v a) = path_of a"
  "has_template (set_default k v a) = has_template a"
  "k' \<noteq> k \<Longrightarrow> conf (set_default k v a) k' = conf a k'"
  by (simp_all add: set_default_def)

lemma configure_properties_Inr:
  assumes "configure_properties blob a = Inr a'"
  shows "cluster a' = cluster a \<and> node_name a' = node_name a \<and> logged a' = logged a \<and>
         created a' = created a @ property_files blob \<and>
         conf a' ''conf_file'' = Some (VStr (path_of a ''server.properties'')) \<and>
         (\<forall>k. k \<notin> {''log_dirs'', ''num_partitions'', ''zk_connect'', ''replication_factor'',
                    ''conf_file'', ''log4j_file''} \<longrightarrow> conf a' k = conf a k)"
  using assms
  by (auto simp: configure_properties_def create_dir_def create_file_from_template_def
                 Let_def and_then_eq_Inr property_files_def
           split: option.splits if_splits)

lemma configure_properties_ok:
  assumes "zk a = Some z" "has_template a ''server.properties''" "has_template a ''log4j.properties''"
  shows "\<exists>a'. configure_properties blob a = Inr a'"
  using assms
  by (simp add: configure_properties_def create_dir_def create_file_from_template_def Let_def)

lemma set_commands_Inr:
  assumes "set_commands kp a = Inr a'"
  shows "\<exists>cf. conf a ''conf_file'' = Some cf \<and>
           a' = a\<lparr>conf := (conf a)(''start_cmd'' \<mapsto> VStr (start_sh kp @ '' '' @ py_str cf),
                                    ''stop_cmd'' \<mapsto> VNone)\<rparr>"
  using assms by (auto simp: set_commands_def Let_def split: option.splits)

lemma set_commands_ok:
  "conf a ''conf_file'' = Some cf \<Longrightarrow> \<exists>a'. set_commands kp a = Inr a'"
  by (simp add: set_commands_def Let_def)

section \<open>A successful run of the constructor\<close>

lemma and_then_Inr_E:
  assumes "and_then m f = Inr y"
  obtains x where "m = Inr x" "f x = Inr y"
  using assms by (auto simp: and_then_eq_Inr)

lemma init_steps:
  assumes "init kp a = Inr a'"
  obtains a1 a2 ls mechs a3 a5 blob a6 where
    "find_zookeeper a = Inr a1"
    "normalize_version a1 = Inr a2"
    "requested_listeners (conf a2) = Inr ls"
    "sasl_mechanisms (conf a2) = Inr mechs"
    "create_listeners (add_sasl_listener ls mechs) a2 = Inr a3"
    "configure_sasl mechs
       (a3\<lparr>conf := (conf a3)(''kafka_path'' \<mapsto>
             (case kp of None \<Rightarrow> VNone | Some k \<Rightarrow> VStr k))\<rparr>) = Inr (a5, blob)"
    "configure_properties blob a5 = Inr a6"
    "set_commands kp a6 = Inr a'"
proof -
  from assms [unfolded init_def] obtain a1 where s1: "find_zookeeper a = Inr a1"
    and r1: "and_then (normalize_version a1) (\<lambda>a2.
     and_then (requested_listeners (conf a2)) (\<lambda>listeners.
     and_then (sasl_mechanisms (conf a2)) (\<lambda>sasl_mechs.
     and_then (create_listeners (add_sasl_listener listeners sasl_mechs) a2) (\<lambda>a3.
     and_then (configure_sasl sasl_mechs
                 (a3\<lparr>conf := (conf a3)(''kafka_path'' \<mapsto>
                       (case kp of None \<Rightarrow> VNone | Some kp \<Rightarrow> VStr kp))\<rparr>))
       (\<lambda>(a5, conf_blob).
     and_then (configure_properties conf_blob a5) (\<lambda>a6.
     set_commands kp a6)))))) = Inr a'"
    by (rule and_then_Inr_E)
  from r1 obtain a2 where s2: "normalize_version a1 = Inr a2"
    and r2: "and_then (requested_listeners (conf a2)) (\<lambda>listeners.
     and_then (sasl_mechanisms (conf a2)) (\<lambda>sasl_mechs.
     and_then (create_listeners (add_sasl_listener listeners sasl_mechs) a2) (\<lambda>a3.
     and_then (configure_sasl sasl_mechs
                 (a3\<lparr>conf := (conf a3)(''kafka_path'' \<mapsto>
                       (case kp of None \<Rightarrow> VNone | Some kp \<Rightarrow> VStr kp))\<rparr>))
       (\<lambda>(a5, conf_blob).
     and_then (configure_properties conf_blob a5) (\<lambda>a6.
     set_commands kp a6))))) = Inr a'"
    by (rule and_then_Inr_E)
  from r2 obtain ls where s3: "requested_listeners (conf a2) = Inr ls"
    and r3: "and_then (sasl_mechanisms (conf a2)) (\<lambda>sasl_mechs.
     and_then (create_listeners (add_sasl_listener ls sasl_mechs) a2) (\<lambda>a3.
     and_then (configure_sasl sasl_mechs
                 (a3\<lparr>conf := (conf a3)(''kafka_path'' \<mapsto>
                       (case kp of None \<Rightarrow> VNone | Some kp \<Rightarrow> VStr kp))\<rparr>))
       (\<lambda>(a5, conf_blob).
     and_then (configure_properties conf_blob a5) (\<lambda>a6.
     set_commands kp a6)))) = Inr a'"
    by (rule and_then_Inr_E)
  from r3 obtain mechs where s4: "sasl_mechanisms (conf a2) = Inr mechs"
    and r4: "and_then (create_listeners (add_sasl_listener ls mechs) a2) (\<lambda>a3.
     and_then (configure_sasl mechs
                 (a3\<lparr>conf := (conf a3)(''kafka_path'' \<mapsto>
                       (case kp of None \<Rightarrow> VNone | Some kp \<Rightarrow> VStr kp))\<rparr>))
       (\<lambda>(a5, conf_blob).
     and_then (configure_properties conf_blob a5) (\<lambda>a6.
     set_commands kp a6))) = Inr a'"
    by (rule and_then_Inr_E)
  from r4 obtain a3 where s5: "create_listeners (add_sasl_listener ls mechs) a2 = Inr a3"
    and r5: "and_then (configure_sasl mechs
                 (a3\<lparr>conf := (conf a3)(''kafka_path'' \<mapsto>
                       (case kp of None \<Rightarrow> VNone | Some kp \<Rightarrow> VStr kp))\<rparr>))
       (\<lambda>(a5, conf_blob).
     and_then (configure_properties conf_blob a5) (\<lambda>a6.
     set_commands kp a6)) = Inr a'"
    by (rule and_then_Inr_E)
  from r5 obtain r where s6': "configure_sasl mechs
                 (a3\<lparr>conf := (conf a3)(''kafka_path'' \<mapsto>
                       (case kp of None \<Rightarrow> VNone | Some kp \<Rightarrow> VStr kp))\<rparr>) = Inr r"
    and r6': "(case r of (a5, conf_blob) \<Rightarrow>
     and_then (configure_properties conf_blob a5) (\<lambda>a6.
     set_commands kp a6)) = Inr a'"
    by (rule and_then_Inr_E)
  obtain a5 blob where r: "r = (a5, blob)" by (cases r)
  from r6' r have r6: "and_then (configure_properties blob a5) (\<lambda>a6. set_commands kp a6) = Inr a'"
    by simp
  from r6 obtain a6 where s7: "configure_properties blob a5 = Inr a6"
    and s8: "set_commands kp a6 = Inr a'"
    by (rule and_then_Inr_E)
  from s1 s2 s3 s4 s5 s6' [unfolded r] s7 s8 show thesis by (rule that)
qed


lemma expected_plain_cong:
  assumes "conf b ''sasl_users'' = conf a ''sasl_users''"
  shows "expected_plain mechs b = expected_plain mechs a"
  unfolding expected_plain_def csv_of_def assms by (rule refl)

lemma expected_warning_cong:
  assumes "conf b ''sasl_users'' = conf a ''sasl_users''"
  shows "expected_warning mechs b = expected_warning mechs a"
  unfolding expected_warning_def csv_of_def assms by (rule refl)

lemma principal_of_cong:
  assumes "kerberos (cluster b) = kerberos (cluster a)" "node_name b = node_name a"
  shows "principal_of b = principal_of a"
  unfolding principal_of_def assms by (rule refl)

lemma expected_krb5_cong:
  assumes "kerberos (cluster b) = kerberos (cluster a)" "node_name b = node_name a"
  shows "expected_krb5 mechs b = expected_krb5 mechs a"
  unfolding expected_krb5_def principal_of_cong [OF assms] by (rule refl)

lemma expected_jaas_cong:
  assumes "conf b ''sasl_users'' = conf a ''sasl_users''"
    "kerberos (cluster b) = kerberos (cluster a)" "node_name b = node_name a"
  shows "expected_jaas mechs b = expected_jaas mechs a"
  unfolding expected_jaas_def expected_plain_cong [OF assms(1)]
    expected_krb5_cong [OF assms(2,3)] by (rule refl)

lemma find_zookeeper_frame:
  assumes "find_zookeeper a = Inr a'"
  shows "zookeeper (cluster a) \<noteq> None \<and> zk a' = zookeeper (cluster a) \<and>
         conf a' = conf a \<and> cluster a' = cluster a \<and>
         node_name a' = node_name a \<and> logged a' = logged a \<and> created a' = created a \<and>
         path_of a' = path_of a \<and> has_template a' = has_template a"
  using find_zookeeper_Inr [OF assms] by auto

lemma normalize_version_frame:
  assumes "normalize_version a = Inr a'"
  shows "conf a ''version'' \<noteq> None \<and> (\<forall>k. k \<noteq> ''version'' \<longrightarrow> conf a' k = conf a k) \<and>
         cluster a' = cluster a \<and> zk a' = zk a \<and>
         node_name a' = node_name a \<and> logged a' = logged a \<and> created a' = created a \<and>
         path_of a' = path_of a \<and> has_template a' = has_template a"
  using normalize_version_Inr [OF assms] by auto

lemma create_listeners_frame:
  assumes "create_listeners listeners a = Inr a'"
  shows "kerberos (cluster a') = kerberos (cluster a)" "zk a' = zk a"
    "node_name a' = node_name a" "logged a' = logged a" "created a' = created a"
    "path_of a' = path_of a" "has_template a' = has_template a"
    "port_supply (cluster a') = drop (length (sorted_set listeners)) (port_supply (cluster a))"
    "length (sorted_set listeners) \<le> length (port_supply (cluster a))"
    "k \<notin> {''port'', ''address'', ''listeners'', ''advertised.listeners''} \<Longrightarrow>
       conf a' k = conf a k"
proof -
  from create_listeners_Inr [OF assms] obtain n p rest where
    len: "length (sorted_set listeners) \<le> length (port_supply (cluster a))" and
    a': "a' = a\<lparr>cluster := (cluster a)\<lparr>port_supply :=
                      drop (length (sorted_set listeners)) (port_supply (cluster a))\<rparr>,
                  conf := (conf a)
                  (''port'' \<mapsto> VInt p,
                   ''address'' \<mapsto> VStr (py_str n @ '':'' @ show_int p),
                   ''listeners'' \<mapsto> VStr (listeners_value (sorted_set listeners) a),
                   ''advertised.listeners'' \<mapsto> VStr (listeners_value (sorted_set listeners) a))\<rparr>"
    by (elim exE conjE)
  show "kerberos (cluster a') = kerberos (cluster a)" "zk a' = zk a"
    "node_name a' = node_name a" "logged a' = logged a" "created a' = created a"
    "path_of a' = path_of a" "has_template a' = has_template a"
    "port_supply (cluster a') = drop (length (sorted_set listeners)) (port_supply (cluster a))"
    by (simp_all add: a')
  show "length (sorted_set listeners) \<le> length (port_supply (cluster a))" by (rule len)
  show "conf a' k = conf a k"
    if "k \<notin> {''port'', ''address'', ''listeners'', ''advertised.listeners''}"
    using that by (simp add: a')
qed

lemma create_listeners_conf:
  assumes "create_listeners listeners a = Inr a'"
  obtains n p rest where "port_supply (cluster a) = p # rest" "conf a ''nodename'' = Some n"
    "conf a' ''port'' = Some (VInt p)"
    "conf a' ''address'' = Some (VStr (py_str n @ '':'' @ show_int p))"
    "conf a' ''listeners'' = Some (VStr (listeners_value (sorted_set listeners) a))"
    "conf a' ''advertised.listeners'' = Some (VStr (listeners_value (sorted_set listeners) a))"
proof -
  from create_listeners_Inr [OF assms] obtain n p rest where
    sup: "port_supply (cluster a) = p # rest" and n: "conf a ''nodename'' = Some n" and
    a': "a' = a\<lparr>cluster := (cluster a)\<lparr>port_supply :=
                      drop (length (sorted_set listeners)) (port_supply (cluster a))\<rparr>,
                  conf := (conf a)
                  (''port'' \<mapsto> VInt p,
                   ''address'' \<mapsto> VStr (py_str n @ '':'' @ show_int p),
                   ''listeners'' \<mapsto> VStr (listeners_value (sorted_set listeners) a),
                   ''advertised.listeners'' \<mapsto> VStr (listeners_value (sorted_set listeners) a))\<rparr>"
    by (elim exE conjE)
  show thesis
    by (rule that [OF sup n]) (simp_all add: a')
qed


lemma init_Inr:
  assumes "init kp a = Inr a'"
  defines "mechs \<equiv> unspaced_mechanisms (csv_of (conf a) ''sasl_mechanisms'' [])"
  defines "names \<equiv> sorted_set (add_sasl_listener
                       (split_on CHR '','' (csv_of (conf a) ''listeners'' ''PLAINTEXT'')) mechs)"
  obtains n p rest where
    "zookeeper (cluster a) \<noteq> None" "conf a ''version'' \<noteq> None"
    "conf a ''nodename'' = Some n" "port_supply (cluster a) = p # rest"
    "length names \<le> length (port_supply (cluster a))"
    "sasl_mechanisms (conf a) = Inr mechs"
    "conf a' ''port'' = Some (VInt p)"
    "conf a' ''address'' = Some (VStr (py_str n @ '':'' @ show_int p))"
    "conf a' ''listeners'' = Some (VStr (listeners_value names a))"
    "conf a' ''advertised.listeners'' = Some (VStr (listeners_value names a))"
    "port_supply (cluster a') = drop (length names) (port_supply (cluster a))"
    "logged a' = logged a @ expected_warning mechs a"
    "created a' = created a @ expected_jaas mechs a @ property_files (expected_conf_blob mechs)"
    "''GSSAPI'' \<in> set mechs \<longrightarrow> kerberos (cluster a) \<noteq> None"
proof -
  from assms(1) obtain a1 a2 ls ms a3 a5 blob a6 where
    s1: "find_zookeeper a = Inr a1" and
    s2: "normalize_version a1 = Inr a2" and
    s3: "requested_listeners (conf a2) = Inr ls" and
    s4: "sasl_mechanisms (conf a2) = Inr ms" and
    s5: "create_listeners (add_sasl_listener ls ms) a2 = Inr a3" and
    s6: "configure_sasl ms
           (a3\<lparr>conf := (conf a3)(''kafka_path'' \<mapsto>
                 (case kp of None \<Rightarrow> VNone | Some k \<Rightarrow> VStr k))\<rparr>) = Inr (a5, blob)" and
    s7: "configure_properties blob a5 = Inr a6" and
    s8: "set_commands kp a6 = Inr a'"
    by (rule init_steps)
  define a4 where "a4 = a3\<lparr>conf := (conf a3)(''kafka_path'' \<mapsto>
                 (case kp of None \<Rightarrow> VNone | Some k \<Rightarrow> VStr k))\<rparr>"
  note Z = find_zookeeper_frame [OF s1]
  note V = normalize_version_frame [OF s2]
  have c2: "conf a2 k = conf a k" if "k \<noteq> ''version''" for k
    using that Z V by simp
  have c2': "conf a2 = (conf a)(''version'' := conf a2 ''version'')"
    by (rule ext) (simp add: c2)
  have f2: "cluster a2 = cluster a" "node_name a2 = node_name a" "logged a2 = logged a"
    "created a2 = created a"
    using Z V by simp_all
  have va: "conf a ''version'' \<noteq> None" using Z V by simp
  then obtain v2 where v2: "conf a2 ''version'' = Some v2"
    using normalize_version_Inr [OF s2] by (elim exE conjE) simp
  have c2'': "conf a2 = (conf a)(''version'' \<mapsto> v2)"
    using c2' v2 by simp
  have ms_a: "sasl_mechanisms (conf a) = Inr ms"
    using s4 unfolding c2'' by simp
  have ms: "ms = mechs"
    unfolding mechs_def by (rule sasl_mechanisms_Inr [OF ms_a])
  have "requested_listeners (conf a) = Inr ls"
    using s3 unfolding c2'' by simp
  then have ls: "ls = split_on CHR '','' (csv_of (conf a) ''listeners'' ''PLAINTEXT'')"
    by (rule requested_listeners_Inr)
  have nm: "sorted_set (add_sasl_listener ls ms) = names"
    unfolding names_def ls ms ..
  note F3 = create_listeners_frame [OF s5, unfolded nm]
  from s5 obtain n p rest where
    sup2: "port_supply (cluster a2) = p # rest" and n2: "conf a2 ''nodename'' = Some n" and
    c3: "conf a3 ''port'' = Some (VInt p)"
        "conf a3 ''address'' = Some (VStr (py_str n @ '':'' @ show_int p))"
        "conf a3 ''listeners'' = Some (VStr (listeners_value names a2))"
        "conf a3 ''advertised.listeners'' = Some (VStr (listeners_value names a2))"
    unfolding nm [symmetric] by (rule create_listeners_conf)
  have lv: "listeners_value names a2 = listeners_value names a"
    unfolding listeners_value_def f2 ..
  have su3: "conf a3 ''sasl_users'' = conf a ''sasl_users''"
    using F3(10) [of "''sasl_users''"] c2 [of "''sasl_users''"] by simp
  have c4: "conf a4 ''port'' = Some (VInt p)"
    "conf a4 ''address'' = Some (VStr (py_str n @ '':'' @ show_int p))"
    "conf a4 ''listeners'' = Some (VStr (listeners_value names a))"
    "conf a4 ''advertised.listeners'' = Some (VStr (listeners_value names a))"
    "conf a4 ''sasl_users'' = conf a ''sasl_users''"
    using c3 su3 unfolding lv a4_def by simp_all
  have f4: "port_supply (cluster a4) = drop (length names) (port_supply (cluster a))"
    "kerberos (cluster a4) = kerberos (cluster a)" "node_name a4 = node_name a"
    "logged a4 = logged a" "created a4 = created a"
    using F3(1-8) unfolding f2 a4_def by simp_all
  note S = configure_sasl_Inr [OF s6 [folded a4_def]]
  have e4: "expected_warning ms a4 = expected_warning mechs a"
    "expected_jaas ms a4 = expected_jaas mechs a"
    unfolding ms
    by (rule expected_warning_cong [OF c4(5)], rule expected_jaas_cong [OF c4(5) f4(2) f4(3)])
  have c5: "conf a5 ''port'' = Some (VInt p)"
    "conf a5 ''address'' = Some (VStr (py_str n @ '':'' @ show_int p))"
    "conf a5 ''listeners'' = Some (VStr (listeners_value names a))"
    "conf a5 ''advertised.listeners'' = Some (VStr (listeners_value names a))"
    using S c4(1-4) by simp_all
  have f5: "port_supply (cluster a5) = drop (length names) (port_supply (cluster a))"
    "logged a5 = logged a @ expected_warning mechs a"
    "created a5 = created a @ expected_jaas mechs a"
    "blob = expected_conf_blob mechs"
    using S f4 e4 unfolding ms by simp_all
  have k5: "''GSSAPI'' \<in> set mechs \<longrightarrow> kerberos (cluster a) \<noteq> None"
    using S f4(2) unfolding ms by simp
  note P = configure_properties_Inr [OF s7]
  have c6: "conf a6 ''port'' = Some (VInt p)"
    "conf a6 ''address'' = Some (VStr (py_str n @ '':'' @ show_int p))"
    "conf a6 ''listeners'' = Some (VStr (listeners_value names a))"
    "conf a6 ''advertised.listeners'' = Some (VStr (listeners_value names a))"
    using P c5 by simp_all
  have f6: "port_supply (cluster a6) = drop (length names) (port_supply (cluster a))"
    "logged a6 = logged a @ expected_warning mechs a"
    "created a6 = created a @ expected_jaas mechs a @ property_files (expected_conf_blob mechs)"
    using P f5 by simp_all
  from set_commands_Inr [OF s8] obtain cf where
    a': "a' = a6\<lparr>conf := (conf a6)(''start_cmd'' \<mapsto> VStr (start_sh kp @ '' '' @ py_str cf),
                                    ''stop_cmd'' \<mapsto> VNone)\<rparr>"
    by (elim exE conjE)
  have c7: "conf a' ''port'' = Some (VInt p)"
    "conf a' ''address'' = Some (VStr (py_str n @ '':'' @ show_int p))"
    "conf a' ''listeners'' = Some (VStr (listeners_value names a))"
    "conf a' ''advertised.listeners'' = Some (VStr (listeners_value names a))"
    using c6 unfolding a' by simp_all
  have f7: "port_supply (cluster a') = drop (length names) (port_supply (cluster a))"
    "logged a' = logged a @ expected_warning mechs a"
    "created a' = created a @ expected_jaas mechs a @ property_files (expected_conf_blob mechs)"
    using f6 unfolding a' by simp_all
  have za: "zookeeper (cluster a) \<noteq> None" using Z by simp
  have na: "conf a ''nodename'' = Some n" using n2 c2 [of "''nodename''"] by simp
  have sup: "port_supply (cluster a) = p # rest" using sup2 unfolding f2 .
  have len: "length names \<le> length (port_supply (cluster a))" using F3(9) unfolding f2 .
  show thesis
    by (rule that [OF za va na sup len ms_a [unfolded ms] c7 f7 k5])
qed

section \<open>When the constructor succeeds\<close>

lemma requested_listeners_ok:
  "string_or_absent c ''listeners'' \<Longrightarrow>
   requested_listeners c = Inr (split_on CHR '','' (csv_of c ''listeners'' ''PLAINTEXT''))"
  by (simp add: string_or_absent_def requested_listeners_def get_string_def csv_of_def
           split: option.splits val.splits)

lemma sasl_mechanisms_ok:
  "string_or_absent c ''sasl_mechanisms'' \<Longrightarrow>
   sasl_mechanisms c = Inr (unspaced_mechanisms (csv_of c ''sasl_mechanisms'' []))"
  by (simp add: string_or_absent_def sasl_mechanisms_def get_string_def csv_of_def
                unspaced_mechanisms_def
           split: option.splits val.splits)

lemma publish_listeners_ok:
  "ports \<noteq> [] \<Longrightarrow> conf a ''nodename'' = Some n \<Longrightarrow> \<exists>a'. publish_listeners ports a = Inr a'"
  by (cases ports) (simp_all add: publish_listeners_def Let_def)

lemma create_listeners_ok:
  assumes "length (sorted_set listeners) \<le> length (port_supply (cluster a))"
    "listeners \<noteq> []" "conf a ''nodename'' = Some n"
  shows "\<exists>a'. create_listeners listeners a = Inr a'"
proof -
  from alloc_ports_enough [OF assms(1)] obtain ports a1 where
    al: "alloc_ports (sorted_set listeners) a = Inr (ports, a1)"
    by (elim exE) (metis surj_pair)
  note A = alloc_ports_Inr [OF al]
  from assms(2) have "sorted_set listeners \<noteq> []" by simp
  with assms(1) A have ne: "ports \<noteq> []"
    by (cases "sorted_set listeners"; cases "port_supply (cluster a)") simp_all
  from A assms(3) have "conf a1 ''nodename'' = Some n" by simp
  from publish_listeners_ok [OF ne this] obtain a' where "publish_listeners ports a1 = Inr a'"
    by (elim exE)
  with al show ?thesis by (simp add: create_listeners_def)
qed

lemma add_sasl_listener_not_Nil: "ls \<noteq> [] \<Longrightarrow> add_sasl_listener ls mechs \<noteq> []"
  by (simp add: add_sasl_listener_def)

lemma plain_user_lines_ok:
  "list_all (\<lambda>e. length (split_on CHR ''='' e) = 2) ups \<Longrightarrow>
   \<exists>ls. plain_user_lines ups acc = Inr ls"
proof (induction ups arbitrary: acc)
  case Nil
  then show ?case by simp
next
  case (Cons up ups)
  from Cons.prems have "length (split_on CHR ''='' up) = 2" by simp
  then obtain u p where up: "split_on CHR ''='' up = [u, p]"
    by (cases "split_on CHR ''='' up"; cases "tl (split_on CHR ''='' up)") auto
  from Cons.prems have "list_all (\<lambda>e. length (split_on CHR ''='' e) = 2) ups" by simp
  from Cons.IH [OF this] up show ?case by simp
qed

lemma sasl_plain_ok:
  assumes "plain_ok a"
  shows "\<exists>r. sasl_plain a jaas = Inr r"
proof -
  let ?u = "csv_of (conf a) ''sasl_users'' []"
  from assms have g: "get_string (conf a) ''sasl_users'' [] TypeError = Inr ?u"
    by (simp add: plain_ok_def string_or_absent_def get_string_def csv_of_def
             split: option.splits val.splits)
  show ?thesis
  proof (cases "?u = []")
    case True
    with g show ?thesis by (simp add: sasl_plain_def)
  next
    case False
    with assms have "list_all (\<lambda>e. length (split_on CHR ''='' e) = 2) (split_on CHR '','' ?u)"
      by (simp add: plain_ok_def)
    from plain_user_lines_ok [OF this, of "jaas @ [plain_module]"] obtain ls where
      "plain_user_lines (split_on CHR '','' ?u) (jaas @ [plain_module]) = Inr ls"
      by (elim exE)
    moreover from this have "ls \<noteq> []"
      by (subst (asm) plain_user_lines_acc) (auto simp: and_then_eq_Inr)
    ultimately show ?thesis using g False
      by (simp add: sasl_plain_def add_to_last_def)
  qed
qed

lemma sasl_gssapi_ok:
  assumes "gssapi_ok a"
  shows "\<exists>r. sasl_gssapi a cb jaas = Inr r"
proof -
  from assms obtain kdc where k: "kerberos (cluster a) = Some kdc"
    by (cases "kerberos (cluster a)") (simp_all add: gssapi_ok_def)
  with assms obtain v where "kdc_conf kdc ''krb5_conf'' = Some v"
    by (cases "kdc_conf kdc ''krb5_conf''") (simp_all add: gssapi_ok_def)
  with k show ?thesis by (simp add: sasl_gssapi_def Let_def)
qed

lemma gssapi_ok_cong:
  assumes "kerberos (cluster b) = kerberos (cluster a)"
  shows "gssapi_ok b = gssapi_ok a"
  unfolding gssapi_ok_def assms by (rule refl)

lemma configure_sasl_ok:
  assumes "''PLAIN'' \<in> set mechs \<longrightarrow> plain_ok a" "''GSSAPI'' \<in> set mechs \<longrightarrow> gssapi_ok a"
  shows "\<exists>r. configure_sasl mechs a = Inr r"
proof (cases "mechs = []")
  case True
  then show ?thesis by simp
next
  case False
  let ?j0 = "[''KafkaServer {'']"
  have "\<exists>a1 jaas1. (if ''PLAIN'' \<in> set mechs then sasl_plain a ?j0 else Inr (a, ?j0)) = Inr (a1, jaas1)
          \<and> kerberos (cluster a1) = kerberos (cluster a)"
  proof (cases "''PLAIN'' \<in> set mechs")
    case True
    with assms(1) have "plain_ok a" by simp
    from sasl_plain_ok [OF this, of ?j0] obtain a1 jaas1 where
      p: "sasl_plain a ?j0 = Inr (a1, jaas1)"
      by (elim exE) (metis surj_pair)
    from sasl_plain_Inr [OF p] have "cluster a1 = cluster a" by auto
    with p True show ?thesis by simp
  next
    case False
    then show ?thesis by simp
  qed
  then obtain a1 jaas1 where
    p: "(if ''PLAIN'' \<in> set mechs then sasl_plain a ?j0 else Inr (a, ?j0)) = Inr (a1, jaas1)"
    and k: "kerberos (cluster a1) = kerberos (cluster a)"
    by (elim exE conjE)
  have "\<exists>r. (if ''GSSAPI'' \<in> set mechs then sasl_gssapi a1 [enabled_mechanisms mechs] jaas1
              else Inr (a1, [enabled_mechanisms mechs], jaas1)) = Inr r"
  proof (cases "''GSSAPI'' \<in> set mechs")
    case True
    with assms(2) have "gssapi_ok a1" unfolding gssapi_ok_cong [OF k] by simp
    from sasl_gssapi_ok [OF this, of "[enabled_mechanisms mechs]" jaas1] True
    show ?thesis by simp
  next
    case False
    then show ?thesis by simp
  qed
  then obtain r where
    g: "(if ''GSSAPI'' \<in> set mechs then sasl_gssapi a1 [enabled_mechanisms mechs] jaas1
              else Inr (a1, [enabled_mechanisms mechs], jaas1)) = Inr r"
    by (elim exE)
  obtain a2 cb2 jaas2 where r: "r = (a2, cb2, jaas2)" by (cases r)
  from False p g r show ?thesis
    by (simp add: configure_sasl_def Let_def)
qed

lemma init_before_sasl:
  assumes "reaches_sasl a"
  defines "mechs \<equiv> unspaced_mechanisms (csv_of (conf a) ''sasl_mechanisms'' [])"
  obtains a4 where
    "init kp a = and_then (configure_sasl mechs a4)
                   (\<lambda>(a5, blob). and_then (configure_properties blob a5) (set_commands kp))"
    "conf a4 ''sasl_users'' = conf a ''sasl_users''"
    "kerberos (cluster a4) = kerberos (cluster a)"
    "node_name a4 = node_name a"
    "zk a4 = zookeeper (cluster a)"
    "has_template a4 = has_template a"
proof -
  let ?L = "csv_of (conf a) ''listeners'' ''PLAINTEXT''"
  let ?ls = "split_on CHR '','' ?L"
  from assms(1) obtain z v n where
    z: "zookeeper (cluster a) = Some z" and v: "conf a ''version'' = Some v" and
    n: "conf a ''nodename'' = Some n"
    unfolding reaches_sasl_def by (elim conjE) (metis not_None_eq)
  from assms(1) have so: "string_or_absent (conf a) ''listeners''"
    "string_or_absent (conf a) ''sasl_mechanisms''"
    and len: "length (listener_names ?L mechs) \<le> length (port_supply (cluster a))"
    unfolding reaches_sasl_def mechs_def by simp_all
  let ?a1 = "a\<lparr>zk := Some z\<rparr>"
  have s1: "find_zookeeper a = Inr ?a1" using z by (rule find_zookeeper_Some)
  have "conf ?a1 ''version'' = Some v" using v by simp
  from normalize_version_Some [OF this] obtain a2 where s2: "normalize_version ?a1 = Inr a2"
    by (elim exE)
  note V = normalize_version_frame [OF s2]
  from normalize_version_Inr [OF s2] obtain v' where c2: "conf a2 = (conf a)(''version'' \<mapsto> v')"
    by (elim exE conjE) simp
  have s3: "requested_listeners (conf a2) = Inr ?ls"
    unfolding c2 requested_listeners_version using so(1) by (rule requested_listeners_ok)
  have s4: "sasl_mechanisms (conf a2) = Inr mechs"
    unfolding c2 sasl_mechanisms_version mechs_def using so(2) by (rule sasl_mechanisms_ok)
  have f2: "cluster a2 = cluster a" "node_name a2 = node_name a" "zk a2 = Some z"
    "has_template a2 = has_template a"
    using V by simp_all
  have n2: "conf a2 ''nodename'' = Some n" unfolding c2 using n by simp
  have len2: "length (sorted_set (add_sasl_listener ?ls mechs)) \<le> length (port_supply (cluster a2))"
    using len unfolding f2 listener_names_eq .
  have "add_sasl_listener ?ls mechs \<noteq> []"
    by (rule add_sasl_listener_not_Nil) simp
  from create_listeners_ok [OF len2 this n2] obtain a3 where
    s5: "create_listeners (add_sasl_listener ?ls mechs) a2 = Inr a3"
    by (elim exE)
  note F3 = create_listeners_frame [OF s5]
  define a4 where "a4 = a3\<lparr>conf := (conf a3)(''kafka_path'' \<mapsto>
                 (case kp of None \<Rightarrow> VNone | Some k \<Rightarrow> VStr k))\<rparr>"
  have i: "init kp a = and_then (configure_sasl mechs a4)
                   (\<lambda>(a5, blob). and_then (configure_properties blob a5) (set_commands kp))"
    unfolding init_def s1 and_then_Inr s2 s3 s4 s5 a4_def ..
  have su: "conf a4 ''sasl_users'' = conf a ''sasl_users''"
    using F3(10) [of "''sasl_users''"] unfolding a4_def c2 by simp
  have f4: "kerberos (cluster a4) = kerberos (cluster a)" "node_name a4 = node_name a"
    "zk a4 = zookeeper (cluster a)" "has_template a4 = has_template a"
    using F3(1-7) z unfolding a4_def f2 by simp_all
  show thesis by (rule that [OF i su f4])
qed

lemma plain_ok_cong:
  assumes "conf b ''sasl_users'' = conf a ''sasl_users''"
  shows "plain_ok b = plain_ok a"
  unfolding plain_ok_def string_or_absent_def csv_of_def assms by (rule refl)

lemma init_succeeds:
  assumes "constructible a"
  shows "\<exists>a'. init kp a = Inr a'"
proof -
  define mechs where "mechs = unspaced_mechanisms (csv_of (conf a) ''sasl_mechanisms'' [])"
  from assms have r: "reaches_sasl a" and t: "renders a"
    and p: "''PLAIN'' \<in> set mechs \<longrightarrow> plain_ok a"
    and g: "''GSSAPI'' \<in> set mechs \<longrightarrow> gssapi_ok a"
    unfolding constructible_def mechs_def by simp_all
  from r obtain a4 where
    i: "init kp a = and_then (configure_sasl mechs a4)
                   (\<lambda>(a5, blob). and_then (configure_properties blob a5) (set_commands kp))" and
    su: "conf a4 ''sasl_users'' = conf a ''sasl_users''" and
    k: "kerberos (cluster a4) = kerberos (cluster a)" and
    z: "zk a4 = zookeeper (cluster a)" and
    h: "has_template a4 = has_template a"
    unfolding mechs_def by (rule init_before_sasl)
  from r obtain zz where zz: "zookeeper (cluster a) = Some zz"
    unfolding reaches_sasl_def by (elim conjE) (metis not_None_eq)
  have "''PLAIN'' \<in> set mechs \<longrightarrow> plain_ok a4" "''GSSAPI'' \<in> set mechs \<longrightarrow> gssapi_ok a4"
    unfolding plain_ok_cong [OF su] gssapi_ok_cong [OF k] by (rule p, rule g)
  from configure_sasl_ok [OF this] obtain a5 blob where
    s6: "configure_sasl mechs a4 = Inr (a5, blob)"
    by (elim exE) (metis surj_pair)
  note S = configure_sasl_Inr [OF s6]
  have "zk a5 = Some zz" "has_template a5 ''server.properties''"
    "has_template a5 ''log4j.properties''"
    using S z zz h t unfolding renders_def by simp_all
  from configure_properties_ok [OF this, of blob] obtain a6 where
    s7: "configure_properties blob a5 = Inr a6" by (elim exE)
  from configure_properties_Inr [OF s7] have
    "conf a6 ''conf_file'' = Some (VStr (path_of a5 ''server.properties''))" by simp
  from set_commands_ok [OF this, of kp] obtain a' where s8: "set_commands kp a6 = Inr a'"
    by (elim exE)
  show ?thesis unfolding i s6 and_then_Inr prod.case s7 s8 by (rule exI, rule refl)
qed

lemma get_string_Inr_string_or_absent:
  "get_string c k d err = Inr s \<Longrightarrow> string_or_absent c k"
  by (simp add: get_string_def string_or_absent_def split: option.splits val.splits)

lemma plain_user_lines_Inr_all:
  assumes "plain_user_lines ups acc = Inr ls"
  shows "list_all (\<lambda>e. length (split_on CHR ''='' e) = 2) ups"
proof (rule ccontr)
  assume "\<not> list_all (\<lambda>e. length (split_on CHR ''='' e) = 2) ups"
  then obtain e where "e \<in> set ups" "length (split_on CHR ''='' e) \<noteq> 2"
    unfolding list_all_iff by blast
  then have "plain_user_lines ups acc = Inl ValueError" by (rule plain_user_lines_bad)
  with assms show False by simp
qed

lemma sasl_plain_Inr_ok:
  assumes "sasl_plain a jaas = Inr r"
  shows "plain_ok a"
proof -
  from assms obtain users where
    g: "get_string (conf a) ''sasl_users'' [] TypeError = Inr users"
    and r: "(if length users = 0 then Inr (log plain_warning a, jaas)
             else and_then (plain_user_lines (split_on CHR '','' users) (jaas @ [plain_module]))
                    (\<lambda>jaas1. and_then (add_to_last '';'' jaas1) (\<lambda>jaas2. Inr (a, jaas2)))) =
            Inr r"
    unfolding sasl_plain_def by (rule and_then_Inr_E)
  from g have u: "users = csv_of (conf a) ''sasl_users'' []" by (rule get_string_csv)
  from g have so: "string_or_absent (conf a) ''sasl_users''"
    by (rule get_string_Inr_string_or_absent)
  show ?thesis
  proof (cases "users = []")
    case True
    with so u show ?thesis by (simp add: plain_ok_def)
  next
    case False
    with r obtain jaas1 where
      "plain_user_lines (split_on CHR '','' users) (jaas @ [plain_module]) = Inr jaas1"
      by (simp add: and_then_eq_Inr) (elim exE conjE)
    then have "list_all (\<lambda>e. length (split_on CHR ''='' e) = 2) (split_on CHR '','' users)"
      by (rule plain_user_lines_Inr_all)
    with so u show ?thesis by (simp add: plain_ok_def)
  qed
qed

lemma sasl_gssapi_Inr_ok:
  assumes "sasl_gssapi a cb jaas = Inr r"
  shows "gssapi_ok a"
proof (cases "kerberos (cluster a)")
  case None
  with assms show ?thesis by (simp add: sasl_gssapi_no_kdc)
next
  case (Some kdc)
  with assms show ?thesis
    by (cases "kdc_conf kdc ''krb5_conf''") (simp_all add: sasl_gssapi_def gssapi_ok_def)
qed

lemma configure_sasl_Inr_ok:
  assumes "configure_sasl mechs a = Inr r"
  shows "(''PLAIN'' \<in> set mechs \<longrightarrow> plain_ok a) \<and> (''GSSAPI'' \<in> set mechs \<longrightarrow> gssapi_ok a)"
proof (cases "mechs = []")
  case True
  then show ?thesis by simp
next
  case False
  let ?j0 = "[''KafkaServer {'']"
  let ?c0 = "[enabled_mechanisms mechs]"
  from assms False have
    "and_then (if ''PLAIN'' \<in> set mechs then sasl_plain a ?j0 else Inr (a, ?j0))
       (\<lambda>(a1, jaas1).
         and_then (if ''GSSAPI'' \<in> set mechs then sasl_gssapi a1 ?c0 jaas1
                   else Inr (a1, ?c0, jaas1))
           (\<lambda>(a2, conf_blob2, jaas2). Inr (write_jaas jaas2 a2, conf_blob2))) = Inr r"
    by (simp add: configure_sasl_def Let_def)
  then obtain r1 where
    p: "(if ''PLAIN'' \<in> set mechs then sasl_plain a ?j0 else Inr (a, ?j0)) = Inr r1" and
    rest: "(case r1 of (a1, jaas1) \<Rightarrow>
         and_then (if ''GSSAPI'' \<in> set mechs then sasl_gssapi a1 ?c0 jaas1
                   else Inr (a1, ?c0, jaas1))
           (\<lambda>(a2, conf_blob2, jaas2). Inr (write_jaas jaas2 a2, conf_blob2))) = Inr r"
    by (rule and_then_Inr_E)
  obtain a1 jaas1 where r1: "r1 = (a1, jaas1)" by (cases r1)
  from rest obtain r2 where
    g: "(if ''GSSAPI'' \<in> set mechs then sasl_gssapi a1 ?c0 jaas1
         else Inr (a1, ?c0, jaas1)) = Inr r2"
    unfolding r1 prod.case by (rule and_then_Inr_E)
  have P: "''PLAIN'' \<in> set mechs \<longrightarrow> plain_ok a"
  proof
    assume "''PLAIN'' \<in> set mechs"
    with p have "sasl_plain a ?j0 = Inr r1" by simp
    then show "plain_ok a" by (rule sasl_plain_Inr_ok)
  qed
  have k: "kerberos (cluster a1) = kerberos (cluster a)"
  proof (cases "''PLAIN'' \<in> set mechs")
    case True
    with p r1 have "sasl_plain a ?j0 = Inr (a1, jaas1)" by simp
    from sasl_plain_Inr [OF this] show ?thesis by auto
  next
    case False
    with p r1 show ?thesis by simp
  qed
  have G: "''GSSAPI'' \<in> set mechs \<longrightarrow> gssapi_ok a"
  proof
    assume "''GSSAPI'' \<in> set mechs"
    with g have "sasl_gssapi a1 ?c0 jaas1 = Inr r2" by simp
    then have "gssapi_ok a1" by (rule sasl_gssapi_Inr_ok)
    then show "gssapi_ok a" unfolding gssapi_ok_cong [OF k] .
  qed
  from P G show ?thesis by simp
qed

lemma configure_properties_Inr_renders:
  assumes "configure_properties blob a = Inr a'"
  shows "renders a"
  using assms
  by (simp add: configure_properties_def create_dir_def create_file_from_template_def
                 Let_def and_then_eq_Inr renders_def
           split: option.splits if_splits)

lemma requested_listeners_Inr_ok:
  "requested_listeners c = Inr ls \<Longrightarrow> string_or_absent c ''listeners''"
  unfolding requested_listeners_def
  by (erule and_then_Inr_E) (rule get_string_Inr_string_or_absent)

lemma sasl_mechanisms_Inr_ok:
  "sasl_mechanisms c = Inr ms \<Longrightarrow> string_or_absent c ''sasl_mechanisms''"
  unfolding sasl_mechanisms_def
  by (erule and_then_Inr_E) (rule get_string_Inr_string_or_absent)

lemma string_or_absent_upd [simp]:
  "k \<noteq> k' \<Longrightarrow> string_or_absent (c(k \<mapsto> v)) k' = string_or_absent c k'"
  by (simp add: string_or_absent_def)


lemma init_constructible:
  assumes "init kp a = Inr a'"
  shows "constructible a"
proof -
  define mechs where "mechs = unspaced_mechanisms (csv_of (conf a) ''sasl_mechanisms'' [])"
  let ?L = "csv_of (conf a) ''listeners'' ''PLAINTEXT''"
  from assms obtain a1 a2 ls ms a3 a5 blob a6 where
    s1: "find_zookeeper a = Inr a1" and
    s2: "normalize_version a1 = Inr a2" and
    s3: "requested_listeners (conf a2) = Inr ls" and
    s4: "sasl_mechanisms (conf a2) = Inr ms" and
    s5: "create_listeners (add_sasl_listener ls ms) a2 = Inr a3" and
    s6: "configure_sasl ms
           (a3\<lparr>conf := (conf a3)(''kafka_path'' \<mapsto>
                 (case kp of None \<Rightarrow> VNone | Some k \<Rightarrow> VStr k))\<rparr>) = Inr (a5, blob)" and
    s7: "configure_properties blob a5 = Inr a6"
    by (rule init_steps)
  define a4 where "a4 = a3\<lparr>conf := (conf a3)(''kafka_path'' \<mapsto>
                 (case kp of None \<Rightarrow> VNone | Some k \<Rightarrow> VStr k))\<rparr>"
  note Z = find_zookeeper_frame [OF s1]
  note V = normalize_version_frame [OF s2]
  from normalize_version_Inr [OF s2] obtain v' where c2': "conf a2 = (conf a1)(''version'' \<mapsto> v')"
    by (elim exE conjE) simp
  have c2: "conf a2 = (conf a)(''version'' \<mapsto> v')" using c2' Z by simp
  have f2: "cluster a2 = cluster a" "node_name a2 = node_name a"
    "has_template a2 = has_template a"
    using Z V by simp_all
  have so: "string_or_absent (conf a) ''listeners''" "string_or_absent (conf a) ''sasl_mechanisms''"
    using requested_listeners_Inr_ok [OF s3] sasl_mechanisms_Inr_ok [OF s4] unfolding c2
    by simp_all
  have ms: "ms = mechs"
    using sasl_mechanisms_Inr [OF s4] unfolding c2 mechs_def by simp
  have ls: "ls = split_on CHR '','' ?L"
    using requested_listeners_Inr [OF s3] unfolding c2 by simp
  note F3 = create_listeners_frame [OF s5]
  have len: "length (listener_names ?L mechs) \<le> length (port_supply (cluster a))"
    using F3(9) unfolding listener_names_eq ls ms f2 .
  from s5 obtain n where "conf a2 ''nodename'' = Some n"
    by (rule create_listeners_conf)
  then have n: "conf a ''nodename'' \<noteq> None" unfolding c2 by simp
  have z: "zookeeper (cluster a) \<noteq> None" using Z by simp
  have v: "conf a ''version'' \<noteq> None" using Z V by simp
  have R: "reaches_sasl a"
    unfolding reaches_sasl_def using z v n so len [unfolded mechs_def] by (intro conjI)
  have su: "conf a4 ''sasl_users'' = conf a ''sasl_users''"
    using F3(10) [of "''sasl_users''"] unfolding a4_def c2 by simp
  have f4: "kerberos (cluster a4) = kerberos (cluster a)" "has_template a4 = has_template a"
    using F3(1-7) unfolding a4_def f2 by simp_all
  from configure_sasl_Inr_ok [OF s6 [folded a4_def]] have
    P: "''PLAIN'' \<in> set mechs \<longrightarrow> plain_ok a" and G: "''GSSAPI'' \<in> set mechs \<longrightarrow> gssapi_ok a"
    unfolding ms plain_ok_cong [OF su] gssapi_ok_cong [OF f4(1)] by simp_all
  from configure_sasl_Inr [OF s6 [folded a4_def]] have "has_template a5 = has_template a"
    using f4(2) by simp
  with configure_properties_Inr_renders [OF s7] have T: "renders a"
    by (simp add: renders_def)
  show ?thesis
    unfolding constructible_def using R T P G unfolding mechs_def by (intro conjI)
qed

lemma init_Inr_iff: "(\<exists>a'. init kp a = Inr a') = constructible a"
  using init_constructible init_succeeds by blast

lemma not_constructible_raises:
  assumes "\<not> constructible a"
  shows "\<exists>e. init kp a = Inl e"
proof (cases "init kp a")
  case (Inl e)
  then show ?thesis by simp
next
  case (Inr a')
  then have "constructible a" by (rule init_constructible)
  with assms show ?thesis by simp
qed

section \<open>Properties of the constructor and of deployment\<close>

text \<open>
  C9: when the cluster has no Zookeeper app, the constructor raises
  \<open>Exception('ZookeeperApp required')\<close> and no app is produced.
\<close>

theorem no_zookeeper_aborts:
  "zookeeper (cluster a) = None \<Longrightarrow>
   init kafka_path a = Inl (Exception ''ZookeeperApp required'')"
  by (simp add: init_def find_zookeeper_None)

theorem no_zookeeper_aborts_witness:
  "zookeeper (cluster (example_app example_conf\<lparr>cluster := example_cluster\<lparr>zookeeper := None\<rparr>\<rparr>)) = None \<and>
   init None (example_app example_conf\<lparr>cluster := example_cluster\<lparr>zookeeper := None\<rparr>\<rparr>) =
     Inl (Exception ''ZookeeperApp required'')"
  using no_zookeeper_aborts
    [of "example_app example_conf\<lparr>cluster := example_cluster\<lparr>zookeeper := None\<rparr>\<rparr>" None]
  by simp

text \<open>
  C6: after every successful construction the value of \<open>advertised.listeners\<close> is
  the value of \<open>listeners\<close>, a string.
\<close>

theorem advertised_listeners_identical:
  assumes "init kafka_path a = Inr a'"
  shows "conf a' ''advertised.listeners'' = conf a' ''listeners'' \<and>
         (\<exists>s. conf a' ''listeners'' = Some (VStr s))"
  using assms by (rule init_Inr) simp

theorem advertised_listeners_identical_witness:
  "\<exists>a'. init None (example_app (example_conf(''listeners'' \<mapsto> VStr ''SSL,PLAINTEXT''))) = Inr a' \<and>
        conf a' ''advertised.listeners'' = conf a' ''listeners'' \<and>
        conf a' ''listeners'' = Some (VStr ''PLAINTEXT://localhost:9092,SSL://localhost:9093'')"
proof -
  let ?a = "example_app (example_conf(''listeners'' \<mapsto> VStr ''SSL,PLAINTEXT''))"
  have "\<exists>a'. init None ?a = Inr a' \<and>
      conf a' ''listeners'' = Some (VStr ''PLAINTEXT://localhost:9092,SSL://localhost:9093'')"
    by (simp add: init_defs example_defs show_int_def show_nat.simps)
  then obtain a' where a': "init None ?a = Inr a'"
    "conf a' ''listeners'' = Some (VStr ''PLAINTEXT://localhost:9092,SSL://localhost:9093'')"
    by (elim exE conjE)
  from advertised_listeners_identical [OF a'(1)] a' show ?thesis
    by (intro exI [of _ a']) simp
qed

text \<open>
  C1, as amended: after every successful construction, \<open>listeners\<close> binds the ports
  of the allocator, in the order in which it hands them out, to the deduplicated,
  sorted union of the protocols of the listener CSV (\<open>PLAINTEXT\<close> when the key is
  absent) and of \<open>{SASL_PLAINTEXT}\<close>, the latter included if and only if the list of
  mechanisms is non-empty, where the mechanisms are parsed by removing every space
  character, splitting at the commas and dropping the empty entries. Exactly one port
  per name is taken from the allocator.
\<close>

theorem listener_set_sorted_union:
  assumes "init kafka_path a = Inr a'"
  defines "mechs \<equiv> unspaced_mechanisms (csv_of (conf a) ''sasl_mechanisms'' [])"
  defines "names \<equiv> listener_names (csv_of (conf a) ''listeners'' ''PLAINTEXT'') mechs"
  shows "conf a' ''listeners'' = Some (VStr (listeners_value names a)) \<and>
         length names \<le> length (port_supply (cluster a)) \<and>
         port_supply (cluster a') = drop (length names) (port_supply (cluster a)) \<and>
         sorted names \<and> distinct names \<and>
         set names = set (split_on CHR '','' (csv_of (conf a) ''listeners'' ''PLAINTEXT'')) \<union>
                     (if mechs = [] then {} else {''SASL_PLAINTEXT''})"
proof -
  have n: "names = sorted_set (add_sasl_listener
             (split_on CHR '','' (csv_of (conf a) ''listeners'' ''PLAINTEXT'')) mechs)"
    unfolding names_def by (rule listener_names_eq)
  have "conf a' ''listeners'' = Some (VStr (listeners_value names a)) \<and>
         length names \<le> length (port_supply (cluster a)) \<and>
         port_supply (cluster a') = drop (length names) (port_supply (cluster a))"
    using assms(1) unfolding n mechs_def by (rule init_Inr) simp
  moreover have "sorted names \<and> distinct names"
    unfolding n by (simp add: sorted_sorted_set distinct_sorted_set)
  moreover have "set names = set (split_on CHR '','' (csv_of (conf a) ''listeners'' ''PLAINTEXT'')) \<union>
                     (if mechs = [] then {} else {''SASL_PLAINTEXT''})"
    unfolding n by (simp add: add_sasl_listener_def)
  ultimately show ?thesis by simp
qed

theorem listener_set_sorted_union_witness:
  "\<exists>a'. init None (example_app (example_conf(''listeners'' \<mapsto> VStr ''SSL,PLAINTEXT,SSL'',
                                               ''sasl_mechanisms'' \<mapsto> VStr '' PLAIN, ''))) = Inr a' \<and>
        conf a' ''listeners'' =
          Some (VStr ''PLAINTEXT://localhost:9092,SASL_PLAINTEXT://localhost:9093,SSL://localhost:9094'') \<and>
        port_supply (cluster a') = []"
proof -
  let ?c = "example_conf(''listeners'' \<mapsto> VStr ''SSL,PLAINTEXT,SSL'',
                         ''sasl_mechanisms'' \<mapsto> VStr '' PLAIN, '')"
  let ?a = "example_app ?c"
  have m: "unspaced_mechanisms (csv_of (conf ?a) ''sasl_mechanisms'' []) = [''PLAIN'']"
    by (simp add: unspaced_mechanisms_def csv_of_def remove_spaces_def example_defs)
  have l: "csv_of (conf ?a) ''listeners'' ''PLAINTEXT'' = ''SSL,PLAINTEXT,SSL''"
    by (simp add: csv_of_def example_defs)
  have n: "listener_names ''SSL,PLAINTEXT,SSL'' [''PLAIN''] =
             [''PLAINTEXT'', ''SASL_PLAINTEXT'', ''SSL'']"
    by (simp add: listener_names_eq add_sasl_listener_def sorted_set_def)
  have v: "listeners_value [''PLAINTEXT'', ''SASL_PLAINTEXT'', ''SSL''] ?a =
      ''PLAINTEXT://localhost:9092,SASL_PLAINTEXT://localhost:9093,SSL://localhost:9094''"
    by (simp add: listeners_value_def listener_url_def example_defs show_int_def show_nat.simps)
  have s: "port_supply (cluster ?a) = [9092, 9093, 9094]"
    by (simp add: example_defs)
  have "constructible ?a"
    unfolding constructible_def reaches_sasl_def m l n s
    by (simp add: renders_def plain_ok_def string_or_absent_def csv_of_def example_defs)
  from init_succeeds [OF this, of None] obtain a' where a': "init None ?a = Inr a'"
    by (elim exE)
  from listener_set_sorted_union [OF a'] have
    "conf a' ''listeners'' =
       Some (VStr ''PLAINTEXT://localhost:9092,SASL_PLAINTEXT://localhost:9093,SSL://localhost:9094'') \<and>
     port_supply (cluster a') = []"
    unfolding m l n v s by simp
  with a' show ?thesis by (intro exI [of _ a']) simp
qed

text \<open>
  C1 as stated fails: for the mechanism CSV consisting of one tab character, stripping
  whitespace leaves no mechanism, so the listener set would be \<open>{PLAINTEXT}\<close>; the
  constructor removes space characters only, keeps the tab as a mechanism and adds
  \<open>SASL_PLAINTEXT\<close>.
\<close>

theorem listener_set_stripped_counterexample:
  "conf_of (init None (example_app (example_conf(''sasl_mechanisms'' \<mapsto> VStr [CHR 0x09]))))
     ''listeners'' =
     Some (VStr ''PLAINTEXT://localhost:9092,SASL_PLAINTEXT://localhost:9093'') \<and>
   listeners_value
     (listener_names
        (csv_of (example_conf(''sasl_mechanisms'' \<mapsto> VStr [CHR 0x09])) ''listeners'' ''PLAINTEXT'')
        (stripped_mechanisms
           (csv_of (example_conf(''sasl_mechanisms'' \<mapsto> VStr [CHR 0x09])) ''sasl_mechanisms'' [])))
     (example_app (example_conf(''sasl_mechanisms'' \<mapsto> VStr [CHR 0x09]))) =
     ''PLAINTEXT://localhost:9092''"
proof -
  let ?c = "example_conf(''sasl_mechanisms'' \<mapsto> VStr [CHR 0x09])"
  let ?a = "example_app ?c"
  have m: "unspaced_mechanisms (csv_of (conf ?a) ''sasl_mechanisms'' []) = [[CHR 0x09]]"
    by (simp add: unspaced_mechanisms_def csv_of_def remove_spaces_def example_defs)
  have l: "csv_of (conf ?a) ''listeners'' ''PLAINTEXT'' = ''PLAINTEXT''"
    by (simp add: csv_of_def example_defs)
  have n: "sorted_set (add_sasl_listener (split_on CHR '','' ''PLAINTEXT'') [[CHR 0x09]]) =
             [''PLAINTEXT'', ''SASL_PLAINTEXT'']"
    by (simp add: add_sasl_listener_def sorted_set_def)
  have v: "listeners_value [''PLAINTEXT'', ''SASL_PLAINTEXT''] ?a =
      ''PLAINTEXT://localhost:9092,SASL_PLAINTEXT://localhost:9093''"
    by (simp add: listeners_value_def listener_url_def example_defs show_int_def show_nat.simps)
  have s: "port_supply (cluster ?a) = [9092, 9093, 9094]"
    by (simp add: example_defs)
  have "constructible ?a"
    unfolding constructible_def reaches_sasl_def m l listener_names_eq n s
    by (simp add: renders_def string_or_absent_def example_defs)
  from init_succeeds [OF this, of None] obtain a' where a': "init None ?a = Inr a'"
    by (elim exE)
  from a' have "conf a' ''listeners'' =
      Some (VStr ''PLAINTEXT://localhost:9092,SASL_PLAINTEXT://localhost:9093'')"
    by (rule init_Inr) (simp only: m l n v)
  then have "conf_of (init None ?a) ''listeners'' =
     Some (VStr ''PLAINTEXT://localhost:9092,SASL_PLAINTEXT://localhost:9093'')"
    unfolding a' conf_of_def by simp
  moreover have "stripped_mechanisms (csv_of ?c ''sasl_mechanisms'' []) = []"
    by (simp add: stripped_mechanisms_def csv_of_def strip_def whitespace_def example_defs)
  moreover have "csv_of ?c ''listeners'' ''PLAINTEXT'' = ''PLAINTEXT''"
    by (simp add: csv_of_def example_defs)
  moreover have "listeners_value (listener_names ''PLAINTEXT'' []) ?a =
     ''PLAINTEXT://localhost:9092''"
    by (simp add: listener_names_eq add_sasl_listener_def sorted_set_def listeners_value_def
          listener_url_def example_defs show_int_def show_nat.simps)
  ultimately show ?thesis by (simp only: simp_thms)
qed

text \<open>
  C2: after every successful construction, \<open>port\<close> is the port that the allocator
  handed out to the first of the sorted listener names, which is the least of them in
  the lexicographic order, and \<open>address\<close> is \<open>nodename\<close>, a colon and that port.
  In particular, for the listener CSV \<open>SSL,PLAINTEXT\<close> and no mechanism, exactly two
  ports are taken from the allocator, the first for \<open>PLAINTEXT\<close> and the second for
  \<open>SSL\<close>, and the default port is the one of \<open>PLAINTEXT\<close>.
\<close>

theorem default_port_first_listener:
  assumes "init kafka_path a = Inr a'"
  defines "mechs \<equiv> unspaced_mechanisms (csv_of (conf a) ''sasl_mechanisms'' [])"
  defines "names \<equiv> listener_names (csv_of (conf a) ''listeners'' ''PLAINTEXT'') mechs"
  shows "\<exists>first p others h.
           zip names (port_supply (cluster a)) = (first, p) # others \<and>
           (\<forall>x\<in>set names. first \<le> x) \<and>
           conf a' ''port'' = Some (VInt p) \<and>
           conf a ''nodename'' = Some h \<and>
           conf a' ''address'' = Some (VStr (py_str h @ '':'' @ show_int p)) \<and>
           conf a' ''listeners'' =
             Some (VStr (join '','' (map (listener_url (node_name a)) ((first, p) # others)))) \<and>
           port_supply (cluster a') = drop (length names) (port_supply (cluster a)) \<and>
           (csv_of (conf a) ''listeners'' ''PLAINTEXT'' = ''SSL,PLAINTEXT'' \<and> mechs = [] \<longrightarrow>
              first = ''PLAINTEXT'' \<and> (\<exists>q. others = [(''SSL'', q)]) \<and>
              port_supply (cluster a') = drop 2 (port_supply (cluster a)))"
proof -
  let ?ls = "add_sasl_listener (split_on CHR '','' (csv_of (conf a) ''listeners'' ''PLAINTEXT'')) mechs"
  have n: "names = sorted_set ?ls"
    unfolding names_def by (rule listener_names_eq)
  from assms(1) obtain h p rest where
    h: "conf a ''nodename'' = Some h" and sup: "port_supply (cluster a) = p # rest" and
    len: "length names \<le> length (port_supply (cluster a))" and
    port: "conf a' ''port'' = Some (VInt p)" and
    addr: "conf a' ''address'' = Some (VStr (py_str h @ '':'' @ show_int p))" and
    lis: "conf a' ''listeners'' = Some (VStr (listeners_value names a))" and
    left: "port_supply (cluster a') = drop (length names) (port_supply (cluster a))"
    unfolding n mechs_def by (rule init_Inr)
  have "?ls \<noteq> []" by (rule add_sasl_listener_not_Nil) simp
  then have "names \<noteq> []" unfolding n by simp
  then obtain first ns where names: "names = first # ns" by (cases names) simp_all
  have z: "zip names (port_supply (cluster a)) = (first, p) # zip ns rest"
    unfolding names sup by simp
  have least: "\<forall>x\<in>set names. first \<le> x"
  proof
    fix x assume "x \<in> set names"
    then have "x \<in> set ?ls" unfolding n by simp
    then have "hd (sorted_set ?ls) \<le> x" by (rule hd_sorted_set_least)
    then show "first \<le> x" unfolding n [symmetric] names by simp
  qed
  have lis': "conf a' ''listeners'' =
      Some (VStr (join '','' (map (listener_url (node_name a)) ((first, p) # zip ns rest))))"
    using lis unfolding listeners_value_def z .
  have special: "first = ''PLAINTEXT'' \<and> (\<exists>q. zip ns rest = [(''SSL'', q)]) \<and>
              port_supply (cluster a') = drop 2 (port_supply (cluster a))"
    if "csv_of (conf a) ''listeners'' ''PLAINTEXT'' = ''SSL,PLAINTEXT''" "mechs = []"
  proof -
    have e: "names = [''PLAINTEXT'', ''SSL'']"
      unfolding n that by (simp add: add_sasl_listener_def sorted_set_def)
    then have l2: "length names = 2" by simp
    from e names have "first # ns = [''PLAINTEXT'', ''SSL'']" by simp
    then have f: "first = ''PLAINTEXT''" and ns: "ns = [''SSL'']" by simp_all
    from len l2 sup obtain q rest' where "rest = q # rest'"
      by (cases rest) simp_all
    with ns have "zip ns rest = [(''SSL'', q)]" by simp
    with f left l2 show ?thesis by simp
  qed
  have sp: "csv_of (conf a) ''listeners'' ''PLAINTEXT'' = ''SSL,PLAINTEXT'' \<and> mechs = [] \<longrightarrow>
              first = ''PLAINTEXT'' \<and> (\<exists>q. zip ns rest = [(''SSL'', q)]) \<and>
              port_supply (cluster a') = drop 2 (port_supply (cluster a))"
    using special by (intro impI) (elim conjE)
  show ?thesis
    apply (rule exI [of _ first], rule exI [of _ p], rule exI [of _ "zip ns rest"],
           rule exI [of _ h])
    using z least port h addr lis' left sp by - (intro conjI; assumption)
qed

theorem default_port_first_listener_witness:
  "\<exists>a'. init None (example_app (example_conf(''listeners'' \<mapsto> VStr ''SSL,PLAINTEXT''))) = Inr a' \<and>
        conf a' ''port'' = Some (VInt 9092) \<and>
        conf a' ''address'' = Some (VStr ''localhost:9092'') \<and>
        conf a' ''listeners'' = Some (VStr ''PLAINTEXT://localhost:9092,SSL://localhost:9093'') \<and>
        port_supply (cluster a') = [9094]"
proof -
  let ?c = "example_conf(''listeners'' \<mapsto> VStr ''SSL,PLAINTEXT'')"
  let ?a = "example_app ?c"
  have m: "unspaced_mechanisms (csv_of (conf ?a) ''sasl_mechanisms'' []) = []"
    by (simp add: unspaced_mechanisms_def csv_of_def remove_spaces_def example_defs)
  have l: "csv_of (conf ?a) ''listeners'' ''PLAINTEXT'' = ''SSL,PLAINTEXT''"
    by (simp add: csv_of_def example_defs)
  have n: "listener_names ''SSL,PLAINTEXT'' [] = [''PLAINTEXT'', ''SSL'']"
    by (simp add: listener_names_eq add_sasl_listener_def sorted_set_def)
  have s: "port_supply (cluster ?a) = [9092, 9093, 9094]"
    by (simp add: example_defs)
  have h: "conf ?a ''nodename'' = Some (VStr ''localhost'')" "node_name ?a = ''localhost''"
    by (simp_all add: example_defs)
  have "constructible ?a"
    unfolding constructible_def reaches_sasl_def m l n s
    by (simp add: renders_def string_or_absent_def example_defs)
  from init_succeeds [OF this, of None] obtain a' where a': "init None ?a = Inr a'"
    by (elim exE)
  from default_port_first_listener [OF a'] show ?thesis
    unfolding m l n s h
    by (intro exI [of _ a'] conjI a')
       (auto simp: listener_url_def show_int_def show_nat.simps)
qed

lemma unspaced_PLAIN [simp]: "unspaced_mechanisms ''PLAIN'' = [''PLAIN'']"
  by (simp add: unspaced_mechanisms_def remove_spaces_def)

lemma csv_of_Some [simp]: "c k = Some (VStr s) \<Longrightarrow> csv_of c k d = s"
  by (simp add: csv_of_def)

lemma string_or_absent_Some [simp]: "c k = Some (VStr s) \<Longrightarrow> string_or_absent c k"
  by (simp add: string_or_absent_def)

lemma init_plain_no_users:
  assumes "conf a ''sasl_mechanisms'' = Some (VStr ''PLAIN'')"
    and "conf a ''sasl_users'' = Some (VStr [])"
    and "reaches_sasl a" and "renders a"
  shows "\<exists>a'. init kafka_path a = Inr a' \<and>
           logged a' = logged a @ [plain_warning] \<and>
           created a' = created a @
             [File ''jaas_broker.conf'' (join nl [''KafkaServer {'', ''};'' @ nl])] @
             property_files [enabled_mechanisms [''PLAIN'']]"
proof -
  have m: "unspaced_mechanisms (csv_of (conf a) ''sasl_mechanisms'' []) = [''PLAIN'']"
    using assms(1) by simp
  have u: "csv_of (conf a) ''sasl_users'' [] = []"
    using assms(2) by simp
  have "plain_ok a"
    using assms(2) u by (simp add: plain_ok_def)
  then have "constructible a"
    unfolding constructible_def m using assms(3,4) by simp
  from init_succeeds [OF this, of kafka_path] obtain a' where a': "init kafka_path a = Inr a'"
    by (elim exE)
  from a' have "logged a' = logged a @ [plain_warning] \<and>
           created a' = created a @
             [File ''jaas_broker.conf'' (join nl [''KafkaServer {'', ''};'' @ nl])] @
             property_files [enabled_mechanisms [''PLAIN'']]"
    unfolding m
    by (rule init_Inr)
       (simp add: m u expected_warning_def expected_jaas_def expected_plain_def
          expected_krb5_def expected_conf_blob_def jaas_plain_first_def)
  with a' show ?thesis by (intro exI [of _ a']) simp
qed

lemma example_plain_no_users:
  "conf (example_app plain_no_users_conf) ''sasl_mechanisms'' = Some (VStr ''PLAIN'')"
  "conf (example_app plain_no_users_conf) ''sasl_users'' = Some (VStr [])"
  "reaches_sasl (example_app plain_no_users_conf)"
  "renders (example_app plain_no_users_conf)"
proof -
  let ?a = "example_app plain_no_users_conf"
  show m: "conf ?a ''sasl_mechanisms'' = Some (VStr ''PLAIN'')"
    and "conf ?a ''sasl_users'' = Some (VStr [])"
    by (simp_all add: example_defs plain_no_users_conf_def)
  have l: "csv_of (conf ?a) ''listeners'' ''PLAINTEXT'' = ''PLAINTEXT''"
    by (simp add: csv_of_def example_defs plain_no_users_conf_def)
  have n: "listener_names ''PLAINTEXT'' [''PLAIN''] = [''PLAINTEXT'', ''SASL_PLAINTEXT'']"
    by (simp add: listener_names_eq add_sasl_listener_def sorted_set_def)
  have c: "csv_of (conf ?a) ''sasl_mechanisms'' [] = ''PLAIN''"
    using m by (rule csv_of_Some)
  show "reaches_sasl ?a"
    unfolding reaches_sasl_def c unspaced_PLAIN l n
    by (simp add: string_or_absent_def example_defs plain_no_users_conf_def)
  show "renders ?a"
    by (simp add: renders_def example_defs)
qed

text \<open>
  C3, as amended: if \<open>sasl_mechanisms\<close> is \<open>PLAIN\<close> and \<open>sasl_users\<close> is the empty
  string, and the constructor gets as far as the SASL block and the templates can be
  rendered, then construction succeeds, the warning is logged, and the file
  \<open>jaas_broker.conf\<close> is created all the same: it holds the outer block with no login
  module and no user line in it.
\<close>

theorem plain_without_users:
  assumes "conf a ''sasl_mechanisms'' = Some (VStr ''PLAIN'')"
    and "conf a ''sasl_users'' = Some (VStr [])"
    and "reaches_sasl a" and "renders a"
  shows "\<exists>a'. init kafka_path a = Inr a' \<and>
           logged a' = logged a @ [plain_warning] \<and>
           created a' = created a @
             [File ''jaas_broker.conf'' (join nl [''KafkaServer {'', ''};'' @ nl])] @
             property_files [enabled_mechanisms [''PLAIN'']]"
  using assms by (rule init_plain_no_users)


theorem plain_without_users_witness:
  "\<exists>a'. init None (example_app plain_no_users_conf) = Inr a' \<and>
        logged a' = [plain_warning] \<and>
        created a' =
          [File ''jaas_broker.conf'' (''KafkaServer {'' @ nl @ ''};'' @ nl),
           Dir ''logs'',
           FromTemplate ''server.properties'' (Some ''sasl.enabled.mechanisms=PLAIN'') True,
           FromTemplate ''log4j.properties'' None False]"
proof -
  have e: "logged (example_app plain_no_users_conf) = []"
    "created (example_app plain_no_users_conf) = []"
    by (simp_all add: example_defs)
  from plain_without_users [OF example_plain_no_users, of None] show ?thesis
    unfolding e by (simp add: property_files_def enabled_mechanisms_def)
qed

text \<open>
  C3 as stated fails: with \<open>sasl_mechanisms\<close> \<open>PLAIN\<close> and empty \<open>sasl_users\<close>
  the construction of the example app succeeds and creates \<open>jaas_broker.conf\<close>, holding
  the empty outer block.
\<close>

theorem no_jaas_file_counterexample:
  "jaas_files (init None (example_app plain_no_users_conf)) \<noteq> [] \<and>
   jaas_files (init None (example_app plain_no_users_conf)) =
     [''KafkaServer {'' @ nl @ ''};'' @ nl]"
proof -
  have e: "created (example_app plain_no_users_conf) = []"
    by (simp add: example_defs)
  from init_plain_no_users [OF example_plain_no_users, of None] obtain a' where
    "init None (example_app plain_no_users_conf) = Inr a'"
    "created a' = created (example_app plain_no_users_conf) @
             [File ''jaas_broker.conf'' (join nl [''KafkaServer {'', ''};'' @ nl])] @
             property_files [enabled_mechanisms [''PLAIN'']]"
    by (elim exE conjE)
  then show ?thesis
    unfolding e by (simp add: jaas_files_def property_files_def)
qed

lemma user_lines_of_alice_bob:
  "user_lines_of ''alice=secret,bob=pw'' = [user_line ''alice'' ''secret'', user_line ''bob'' ''pw'']"
  by (simp add: user_lines_of_def)

lemma alice_bob_text:
  "join nl ([''KafkaServer {''] @
            plain_stanza [user_line ''alice'' ''secret'', user_line ''bob'' ''pw''] @ [] @
            [''};'' @ nl]) =
   join nl [''KafkaServer {'', plain_module,
            ''user_alice='' @ dq @ ''secret'' @ dq,
            ''user_bob='' @ dq @ ''pw'' @ dq @ '';'',
            ''};'' @ nl]"
  by (simp add: plain_stanza_def user_line_def)

lemma alice_bob_user_lines:
  "user_lines_in (join nl [''KafkaServer {'', plain_module,
            ''user_alice='' @ dq @ ''secret'' @ dq,
            ''user_bob='' @ dq @ ''pw'' @ dq @ '';'',
            ''};'' @ nl]) =
   [''user_alice='' @ dq @ ''secret'' @ dq, ''user_bob='' @ dq @ ''pw'' @ dq @ '';'']"
  by (simp add: user_lines_in_def plain_module_def dq_def nl_def)


lemma plain_ok_alice_bob:
  assumes "conf a ''sasl_users'' = Some (VStr ''alice=secret,bob=pw'')"
  shows "plain_ok a"
proof -
  have "csv_of (conf a) ''sasl_users'' [] = ''alice=secret,bob=pw''"
    using assms by (rule csv_of_Some)
  then show ?thesis
    unfolding plain_ok_def using assms by (simp add: string_or_absent_def)
qed

lemma init_alice_bob:
  assumes "conf a ''sasl_mechanisms'' = Some (VStr ''PLAIN'')"
    and "conf a ''sasl_users'' = Some (VStr ''alice=secret,bob=pw'')"
    and "init kafka_path a = Inr a'"
  shows "created a' = created a @
           [File ''jaas_broker.conf''
              (join nl [''KafkaServer {'', plain_module,
                        ''user_alice='' @ dq @ ''secret'' @ dq,
                        ''user_bob='' @ dq @ ''pw'' @ dq @ '';'',
                        ''};'' @ nl])] @
           property_files [enabled_mechanisms [''PLAIN'']]"
proof -
  have m: "csv_of (conf a) ''sasl_mechanisms'' [] = ''PLAIN''"
    using assms(1) by (rule csv_of_Some)
  have u: "csv_of (conf a) ''sasl_users'' [] = ''alice=secret,bob=pw''"
    using assms(2) by (rule csv_of_Some)
  have j: "expected_jaas [''PLAIN''] a =
      [File ''jaas_broker.conf''
              (join nl [''KafkaServer {'', plain_module,
                        ''user_alice='' @ dq @ ''secret'' @ dq,
                        ''user_bob='' @ dq @ ''pw'' @ dq @ '';'',
                        ''};'' @ nl])]"
    unfolding expected_jaas_def expected_plain_def expected_krb5_def u user_lines_of_alice_bob
      jaas_plain_first_def
    by (simp add: alice_bob_text [simplified])
  have b: "expected_conf_blob [''PLAIN''] = [enabled_mechanisms [''PLAIN'']]"
    by (simp add: expected_conf_blob_def)
  from assms(3) show ?thesis
    by (rule init_Inr) (simp only: m unspaced_PLAIN j b)
qed

text \<open>
  C7: if \<open>sasl_mechanisms\<close> is \<open>PLAIN\<close> and \<open>sasl_users\<close> is
  \<open>alice=secret,bob=pw\<close>, every successful construction writes the login block
  with the module line and the two user lines, \<open>user_alice\<close> before \<open>user_bob\<close>, the
  second closed by a semicolon; these are the only lines of the file that start with
  \<open>user_\<close>. Construction succeeds when the constructor gets as far as the SASL block and
  the templates can be rendered.
\<close>

theorem alice_and_bob:
  assumes "conf a ''sasl_mechanisms'' = Some (VStr ''PLAIN'')"
    and "conf a ''sasl_users'' = Some (VStr ''alice=secret,bob=pw'')"
  shows "(reaches_sasl a \<and> renders a \<longrightarrow> (\<exists>b. init kafka_path a = Inr b)) \<and>
         (init kafka_path a = Inr a' \<longrightarrow>
            (\<exists>text. created a' = created a @ [File ''jaas_broker.conf'' text] @
                                 property_files [enabled_mechanisms [''PLAIN'']] \<and>
               text = join nl [''KafkaServer {'', plain_module,
                               ''user_alice='' @ dq @ ''secret'' @ dq,
                               ''user_bob='' @ dq @ ''pw'' @ dq @ '';'',
                               ''};'' @ nl] \<and>
               user_lines_in text =
                 [''user_alice='' @ dq @ ''secret'' @ dq, ''user_bob='' @ dq @ ''pw'' @ dq @ '';'']))"
proof (intro conjI impI)
  assume r: "reaches_sasl a \<and> renders a"
  have m: "csv_of (conf a) ''sasl_mechanisms'' [] = ''PLAIN''"
    using assms(1) by (rule csv_of_Some)
  have "constructible a"
    unfolding constructible_def m unspaced_PLAIN
    using r plain_ok_alice_bob [OF assms(2)] by simp
  then show "\<exists>b. init kafka_path a = Inr b" by (rule init_succeeds)
next
  assume "init kafka_path a = Inr a'"
  with assms have "created a' = created a @
           [File ''jaas_broker.conf''
              (join nl [''KafkaServer {'', plain_module,
                        ''user_alice='' @ dq @ ''secret'' @ dq,
                        ''user_bob='' @ dq @ ''pw'' @ dq @ '';'',
                        ''};'' @ nl])] @
           property_files [enabled_mechanisms [''PLAIN'']]"
    by (rule init_alice_bob)
  with alice_bob_user_lines show "\<exists>text. created a' = created a @ [File ''jaas_broker.conf'' text] @
                                 property_files [enabled_mechanisms [''PLAIN'']] \<and>
               text = join nl [''KafkaServer {'', plain_module,
                               ''user_alice='' @ dq @ ''secret'' @ dq,
                               ''user_bob='' @ dq @ ''pw'' @ dq @ '';'',
                               ''};'' @ nl] \<and>
               user_lines_in text =
                 [''user_alice='' @ dq @ ''secret'' @ dq, ''user_bob='' @ dq @ ''pw'' @ dq @ '';'']"
    by (intro exI conjI) (assumption, rule refl, assumption)
qed


lemma example_alice_bob:
  "conf (example_app alice_bob_conf) ''sasl_mechanisms'' = Some (VStr ''PLAIN'')"
  "conf (example_app alice_bob_conf) ''sasl_users'' = Some (VStr ''alice=secret,bob=pw'')"
  "reaches_sasl (example_app alice_bob_conf)"
  "renders (example_app alice_bob_conf)"
proof -
  let ?a = "example_app alice_bob_conf"
  show m: "conf ?a ''sasl_mechanisms'' = Some (VStr ''PLAIN'')"
    and "conf ?a ''sasl_users'' = Some (VStr ''alice=secret,bob=pw'')"
    by (simp_all add: example_defs alice_bob_conf_def)
  have c: "csv_of (conf ?a) ''sasl_mechanisms'' [] = ''PLAIN''"
    using m by (rule csv_of_Some)
  have l: "csv_of (conf ?a) ''listeners'' ''PLAINTEXT'' = ''PLAINTEXT''"
    by (simp add: csv_of_def example_defs alice_bob_conf_def)
  have n: "listener_names ''PLAINTEXT'' [''PLAIN''] = [''PLAINTEXT'', ''SASL_PLAINTEXT'']"
    by (simp add: listener_names_eq add_sasl_listener_def sorted_set_def)
  show "reaches_sasl ?a"
    unfolding reaches_sasl_def c unspaced_PLAIN l n
    by (simp add: string_or_absent_def example_defs alice_bob_conf_def)
  show "renders ?a"
    by (simp add: renders_def example_defs)
qed

theorem alice_and_bob_witness:
  "\<exists>a'. init None (example_app alice_bob_conf) = Inr a' \<and>
        created a' =
          [File ''jaas_broker.conf''
             (join nl [''KafkaServer {'', plain_module,
                       ''user_alice='' @ dq @ ''secret'' @ dq,
                       ''user_bob='' @ dq @ ''pw'' @ dq @ '';'',
                       ''};'' @ nl]),
           Dir ''logs'',
           FromTemplate ''server.properties'' (Some ''sasl.enabled.mechanisms=PLAIN'') True,
           FromTemplate ''log4j.properties'' None False]"
proof -
  let ?a = "example_app alice_bob_conf"
  have e: "created ?a = []" by (simp add: example_defs)
  note T = alice_and_bob [OF example_alice_bob(1,2), where kafka_path = None]
  from T [where a' = "example_app alice_bob_conf", THEN conjunct1, THEN mp, OF conjI, OF example_alice_bob(3,4)]
  obtain b where b: "init None ?a = Inr b" by (elim exE)
  from T [where a' = b, THEN conjunct2, THEN mp, OF b]
  obtain t where
    "created b = created ?a @ [File ''jaas_broker.conf'' t] @
                   property_files [enabled_mechanisms [''PLAIN'']]"
    "t = join nl [''KafkaServer {'', plain_module,
                     ''user_alice='' @ dq @ ''secret'' @ dq,
                     ''user_bob='' @ dq @ ''pw'' @ dq @ '';'',
                     ''};'' @ nl]"
    by (elim conjE exE)
  with b show ?thesis
    unfolding e
    by (intro exI [of _ b]) (simp add: property_files_def enabled_mechanisms_def)
qed

lemma init_plain_gssapi:
  assumes "init kafka_path a = Inr a'"
  defines "mechs \<equiv> unspaced_mechanisms (csv_of (conf a) ''sasl_mechanisms'' [])"
  defines "users \<equiv> csv_of (conf a) ''sasl_users'' []"
  assumes "''PLAIN'' \<in> set mechs" and "''GSSAPI'' \<in> set mechs"
  shows "\<exists>kdc. kerberos (cluster a) = Some kdc \<and>
           created a' = created a @
             [File ''jaas_broker.conf''
                (join nl ([''KafkaServer {''] @
                          (if users = [] then [] else plain_stanza (user_lines_of users)) @
                          krb5_stanza (fst (add_principal kdc ''kafka'' (node_name a)))
                                      (snd (add_principal kdc ''kafka'' (node_name a))) @
                          [''};'' @ nl]))] @
             property_files [enabled_mechanisms mechs, ''sasl.kerberos.service.name=kafka'']"
proof -
  from assms(1) have
    "created a' = created a @ expected_jaas mechs a @ property_files (expected_conf_blob mechs) \<and>
     (''GSSAPI'' \<in> set mechs \<longrightarrow> kerberos (cluster a) \<noteq> None)"
    unfolding mechs_def by (rule init_Inr) (intro conjI; assumption)
  then have
    c: "created a' = created a @ expected_jaas mechs a @ property_files (expected_conf_blob mechs)"
    and k: "''GSSAPI'' \<in> set mechs \<longrightarrow> kerberos (cluster a) \<noteq> None"
    by (rule conjunct1, rule conjunct2)
  from k assms(5) obtain kdc where kdc: "kerberos (cluster a) = Some kdc"
    by (cases "kerberos (cluster a)") simp_all
  from assms(4) have ne: "mechs \<noteq> []" by auto
  have b: "expected_conf_blob mechs =
             [enabled_mechanisms mechs, ''sasl.kerberos.service.name=kafka'']"
    using ne assms(5) by (simp add: expected_conf_blob_def)
  have j: "expected_jaas mechs a =
      [File ''jaas_broker.conf''
                (join nl ([''KafkaServer {''] @
                          (if users = [] then [] else plain_stanza (user_lines_of users)) @
                          krb5_stanza (fst (add_principal kdc ''kafka'' (node_name a)))
                                      (snd (add_principal kdc ''kafka'' (node_name a))) @
                          [''};'' @ nl]))]"
    using ne assms(4,5)
    unfolding expected_jaas_def expected_plain_def expected_krb5_def jaas_plain_first_def
      principal_of_Some [OF kdc] users_def
    by simp
  show ?thesis
    unfolding c j b using kdc by (intro exI [of _ kdc] conjI) (assumption, rule refl)
qed


lemma example_gssapi_plain:
  "unspaced_mechanisms (csv_of (conf (example_app gssapi_plain_conf)) ''sasl_mechanisms'' []) =
     [''GSSAPI'', ''PLAIN'']"
  "csv_of (conf (example_app gssapi_plain_conf)) ''sasl_users'' [] = ''alice=secret''"
  "kerberos (cluster (example_app gssapi_plain_conf)) = Some example_kdc"
  "node_name (example_app gssapi_plain_conf) = ''localhost''"
  "created (example_app gssapi_plain_conf) = []"
  "constructible (example_app gssapi_plain_conf)"
proof -
  let ?a = "example_app gssapi_plain_conf"
  show m: "unspaced_mechanisms (csv_of (conf ?a) ''sasl_mechanisms'' []) = [''GSSAPI'', ''PLAIN'']"
    by (simp add: unspaced_mechanisms_def remove_spaces_def csv_of_def example_defs
          gssapi_plain_conf_def)
  show u: "csv_of (conf ?a) ''sasl_users'' [] = ''alice=secret''"
    by (simp add: csv_of_def example_defs gssapi_plain_conf_def)
  show "kerberos (cluster ?a) = Some example_kdc" "node_name ?a = ''localhost''"
    "created ?a = []"
    by (simp_all add: example_defs)
  have l: "csv_of (conf ?a) ''listeners'' ''PLAINTEXT'' = ''PLAINTEXT''"
    by (simp add: csv_of_def example_defs gssapi_plain_conf_def)
  have n: "listener_names ''PLAINTEXT'' [''GSSAPI'', ''PLAIN''] = [''PLAINTEXT'', ''SASL_PLAINTEXT'']"
    by (simp add: listener_names_eq add_sasl_listener_def sorted_set_def)
  have r: "reaches_sasl ?a"
    unfolding reaches_sasl_def m l n
    by (simp add: string_or_absent_def example_defs gssapi_plain_conf_def)
  have t: "renders ?a"
    by (simp add: renders_def example_defs)
  have p: "plain_ok ?a"
    unfolding plain_ok_def u
    by (simp add: string_or_absent_def example_defs gssapi_plain_conf_def)
  have g: "gssapi_ok ?a"
    by (simp add: gssapi_ok_def example_defs)
  show "constructible ?a"
    unfolding constructible_def using r t p g by simp
qed

lemma user_lines_of_alice: "user_lines_of ''alice=secret'' = [user_line ''alice'' ''secret'']"
  by (simp add: user_lines_of_def)

lemma example_principal:
  "add_principal example_kdc ''kafka'' ''localhost'' = (''kafka/localhost@REALM'', ''/kdc/kafka.keytab'')"
  by (simp add: example_kdc_def)

text \<open>
  C5, as amended: if both \<open>PLAIN\<close> and \<open>GSSAPI\<close> are among the requested mechanisms,
  every successful construction writes one outer block that holds the PLAIN stanza
  first (when \<open>sasl_users\<close> is non-empty; no PLAIN stanza otherwise) and the Kerberos
  stanza second, whatever the order of the two mechanisms in the CSV.
\<close>

theorem plain_stanza_before_kerberos:
  assumes "init kafka_path a = Inr a'"
  defines "mechs \<equiv> unspaced_mechanisms (csv_of (conf a) ''sasl_mechanisms'' [])"
  defines "users \<equiv> csv_of (conf a) ''sasl_users'' []"
  assumes "''PLAIN'' \<in> set mechs" and "''GSSAPI'' \<in> set mechs"
  shows "\<exists>kdc. kerberos (cluster a) = Some kdc \<and>
           created a' = created a @
             [File ''jaas_broker.conf''
                (join nl ([''KafkaServer {''] @
                          (if users = [] then [] else plain_stanza (user_lines_of users)) @
                          krb5_stanza (fst (add_principal kdc ''kafka'' (node_name a)))
                                      (snd (add_principal kdc ''kafka'' (node_name a))) @
                          [''};'' @ nl]))] @
             property_files [enabled_mechanisms mechs, ''sasl.kerberos.service.name=kafka'']"
  using assms(1,4,5) unfolding mechs_def users_def by (rule init_plain_gssapi)

theorem plain_stanza_before_kerberos_witness:
  "\<exists>a'. init None (example_app gssapi_plain_conf) = Inr a' \<and>
        jaas_data (created a') =
          [join nl [''KafkaServer {'',
                    plain_module,
                    ''user_alice='' @ dq @ ''secret'' @ dq @ '';'',
                    ''com.sun.security.auth.module.Krb5LoginModule required'',
                    ''useKeyTab=true storeKey=true doNotPrompt=true'',
                    ''keyTab='' @ dq @ ''/kdc/kafka.keytab'' @ dq,
                    ''debug=true'',
                    ''principal='' @ dq @ ''kafka/localhost@REALM'' @ dq @ '';'',
                    ''};'' @ nl]]"
proof -
  let ?a = "example_app gssapi_plain_conf"
  from init_succeeds [OF example_gssapi_plain(6), of None] obtain a' where
    a': "init None ?a = Inr a'" by (elim exE)
  have P: "''PLAIN'' \<in> set (unspaced_mechanisms (csv_of (conf ?a) ''sasl_mechanisms'' []))"
    and G: "''GSSAPI'' \<in> set (unspaced_mechanisms (csv_of (conf ?a) ''sasl_mechanisms'' []))"
    unfolding example_gssapi_plain(1) by simp_all
  from plain_stanza_before_kerberos [OF a' P G]
  have "jaas_data (created a') =
          [join nl [''KafkaServer {'',
                    plain_module,
                    ''user_alice='' @ dq @ ''secret'' @ dq @ '';'',
                    ''com.sun.security.auth.module.Krb5LoginModule required'',
                    ''useKeyTab=true storeKey=true doNotPrompt=true'',
                    ''keyTab='' @ dq @ ''/kdc/kafka.keytab'' @ dq,
                    ''debug=true'',
                    ''principal='' @ dq @ ''kafka/localhost@REALM'' @ dq @ '';'',
                    ''};'' @ nl]]"
    unfolding example_gssapi_plain(1-5) user_lines_of_alice
    by (auto simp: example_principal property_files_def plain_stanza_def user_line_def
          krb5_stanza_def)
  with a' show ?thesis by (intro exI [of _ a'] conjI)
qed

text \<open>
  C5 as stated fails: for the mechanism CSV \<open>GSSAPI,PLAIN\<close> the file of the example app
  has the PLAIN stanza before the Kerberos stanza, which is not the order in which the
  mechanisms are listed.
\<close>

theorem listed_order_counterexample:
  "jaas_files (init None (example_app gssapi_plain_conf)) =
     [jaas_plain_first (plain_stanza [user_line ''alice'' ''secret''])
        (krb5_stanza ''kafka/localhost@REALM'' ''/kdc/kafka.keytab'')] \<and>
   jaas_files (init None (example_app gssapi_plain_conf)) \<noteq>
     [jaas_in_listed_order (unspaced_mechanisms ''GSSAPI,PLAIN'')
        (plain_stanza [user_line ''alice'' ''secret''])
        (krb5_stanza ''kafka/localhost@REALM'' ''/kdc/kafka.keytab'')]"
proof -
  let ?a = "example_app gssapi_plain_conf"
  let ?P = "plain_stanza [user_line ''alice'' ''secret'']"
  let ?K = "krb5_stanza ''kafka/localhost@REALM'' ''/kdc/kafka.keytab''"
  from init_succeeds [OF example_gssapi_plain(6), of None] obtain a' where
    a': "init None ?a = Inr a'" by (elim exE)
  have P: "''PLAIN'' \<in> set (unspaced_mechanisms (csv_of (conf ?a) ''sasl_mechanisms'' []))"
    and G: "''GSSAPI'' \<in> set (unspaced_mechanisms (csv_of (conf ?a) ''sasl_mechanisms'' []))"
    unfolding example_gssapi_plain(1) by simp_all
  from init_plain_gssapi [OF a' P G]
  have "jaas_data (created a') = [jaas_plain_first ?P ?K]"
    unfolding example_gssapi_plain(1-5) user_lines_of_alice
    by (auto simp: example_principal property_files_def jaas_plain_first_def)
  then have 1: "jaas_files (init None ?a) = [jaas_plain_first ?P ?K]"
    unfolding a' jaas_files_def by simp
  have m: "unspaced_mechanisms ''GSSAPI,PLAIN'' = [''GSSAPI'', ''PLAIN'']"
    by (simp add: unspaced_mechanisms_def remove_spaces_def)
  have 2: "jaas_plain_first ?P ?K \<noteq> jaas_in_listed_order [''GSSAPI'', ''PLAIN''] ?P ?K"
    by (simp add: jaas_plain_first_def jaas_in_listed_order_def mechanism_stanza_def
          plain_stanza_def krb5_stanza_def plain_module_def nl_def)
  show ?thesis unfolding 1 m using 2 by simp
qed

lemma configure_sasl_plain_raises:
  assumes "''PLAIN'' \<in> set mechs" "sasl_plain a [''KafkaServer {''] = Inl err"
  shows "configure_sasl mechs a = Inl err"
proof -
  from assms(1) have "mechs \<noteq> []" by auto
  with assms show ?thesis by (simp add: configure_sasl_def Let_def)
qed

lemma configure_sasl_no_kdc:
  assumes "''GSSAPI'' \<in> set mechs" "kerberos (cluster a) = None"
    "''PLAIN'' \<in> set mechs \<longrightarrow> plain_ok a"
  shows "configure_sasl mechs a = Inl AttributeError"
proof -
  let ?j0 = "[''KafkaServer {'']"
  from assms(1) have ne: "mechs \<noteq> []" by auto
  have "\<exists>a1 jaas1. (if ''PLAIN'' \<in> set mechs then sasl_plain a ?j0 else Inr (a, ?j0)) = Inr (a1, jaas1)
          \<and> kerberos (cluster a1) = None"
  proof (cases "''PLAIN'' \<in> set mechs")
    case True
    with assms(3) have "plain_ok a" by simp
    from sasl_plain_ok [OF this, of ?j0] obtain a1 jaas1 where
      p: "sasl_plain a ?j0 = Inr (a1, jaas1)"
      by (elim exE) (metis surj_pair)
    from sasl_plain_Inr [OF p] have "cluster a1 = cluster a" by auto
    with p True assms(2) show ?thesis by simp
  next
    case False
    with assms(2) show ?thesis by simp
  qed
  then obtain a1 jaas1 where
    p: "(if ''PLAIN'' \<in> set mechs then sasl_plain a ?j0 else Inr (a, ?j0)) = Inr (a1, jaas1)"
    and k: "kerberos (cluster a1) = None"
    by (elim exE conjE)
  have "sasl_gssapi a1 [enabled_mechanisms mechs] jaas1 = Inl AttributeError"
    using k by (rule sasl_gssapi_no_kdc)
  with ne p assms(1) show ?thesis
    by (simp add: configure_sasl_def Let_def)
qed

text \<open>
  C8: if \<open>GSSAPI\<close> is among the requested mechanisms and the cluster has no KDC app,
  construction raises. When the constructor gets as far as the SASL block and the PLAIN
  branch, if taken, returns, the exception is the AttributeError of reading \<open>kdc.conf\<close>
  on \<open>None\<close>.
\<close>

theorem gssapi_without_kdc:
  assumes "''GSSAPI'' \<in> set (unspaced_mechanisms (csv_of (conf a) ''sasl_mechanisms'' []))"
    and "kerberos (cluster a) = None"
  shows "(\<exists>e. init kafka_path a = Inl e) \<and>
         (reaches_sasl a \<and>
          (''PLAIN'' \<in> set (unspaced_mechanisms (csv_of (conf a) ''sasl_mechanisms'' []))
             \<longrightarrow> plain_ok a)
          \<longrightarrow> init kafka_path a = Inl AttributeError)"
proof (intro conjI impI)
  have "\<not> gssapi_ok a" using assms(2) by (simp add: gssapi_ok_def)
  with assms(1) have "\<not> constructible a" by (simp add: constructible_def)
  then show "\<exists>e. init kafka_path a = Inl e" by (rule not_constructible_raises)
next
  let ?mechs = "unspaced_mechanisms (csv_of (conf a) ''sasl_mechanisms'' [])"
  assume h: "reaches_sasl a \<and> (''PLAIN'' \<in> set ?mechs \<longrightarrow> plain_ok a)"
  then have "reaches_sasl a" by simp
  then obtain a4 where
    i: "init kafka_path a = and_then (configure_sasl ?mechs a4)
          (\<lambda>(a5, blob). and_then (configure_properties blob a5) (set_commands kafka_path))" and
    su: "conf a4 ''sasl_users'' = conf a ''sasl_users''" and
    k: "kerberos (cluster a4) = kerberos (cluster a)"
    by (rule init_before_sasl)
  have "''PLAIN'' \<in> set ?mechs \<longrightarrow> plain_ok a4"
    unfolding plain_ok_cong [OF su] using h by simp
  with assms(1) have "configure_sasl ?mechs a4 = Inl AttributeError"
    using assms(2) unfolding k [symmetric] by (intro configure_sasl_no_kdc)
  then show "init kafka_path a = Inl AttributeError"
    unfolding i by simp
qed


theorem gssapi_without_kdc_witness:
  "''GSSAPI'' \<in> set (unspaced_mechanisms (csv_of (conf gssapi_no_kdc_app) ''sasl_mechanisms'' [])) \<and>
   kerberos (cluster gssapi_no_kdc_app) = None \<and>
   init None gssapi_no_kdc_app = Inl AttributeError"
proof -
  let ?a = "gssapi_no_kdc_app"
  have m: "unspaced_mechanisms (csv_of (conf ?a) ''sasl_mechanisms'' []) = [''GSSAPI'']"
    by (simp add: unspaced_mechanisms_def remove_spaces_def csv_of_def example_defs
          gssapi_conf_def gssapi_no_kdc_app_def)
  have k: "kerberos (cluster ?a) = None"
    by (simp add: gssapi_no_kdc_app_def)
  have l: "csv_of (conf ?a) ''listeners'' ''PLAINTEXT'' = ''PLAINTEXT''"
    by (simp add: csv_of_def example_defs gssapi_conf_def gssapi_no_kdc_app_def)
  have n: "listener_names ''PLAINTEXT'' [''GSSAPI''] = [''PLAINTEXT'', ''SASL_PLAINTEXT'']"
    by (simp add: listener_names_eq add_sasl_listener_def sorted_set_def)
  have r: "reaches_sasl ?a"
    unfolding reaches_sasl_def m l n
    by (simp add: string_or_absent_def example_defs gssapi_conf_def gssapi_no_kdc_app_def)
  have g: "''GSSAPI'' \<in> set (unspaced_mechanisms (csv_of (conf ?a) ''sasl_mechanisms'' []))"
    unfolding m by simp
  have p: "reaches_sasl ?a \<and>
      (''PLAIN'' \<in> set (unspaced_mechanisms (csv_of (conf ?a) ''sasl_mechanisms'' []))
         \<longrightarrow> plain_ok ?a)"
    unfolding m using r by simp
  from gssapi_without_kdc [OF g k, of None, THEN conjunct2, THEN mp, OF p] g k
  show ?thesis by (intro conjI)
qed

text \<open>
  C10: if \<open>PLAIN\<close> is among the requested mechanisms and some non-empty entry of the
  \<open>sasl_users\<close> CSV does not contain exactly one \<open>=\<close>, the PLAIN branch raises
  ValueError instead of returning with a warning logged, so construction raises; the
  exception that leaves the constructor is this ValueError whenever the constructor gets
  as far as the SASL block.
\<close>

theorem malformed_user_entry:
  assumes "''PLAIN'' \<in> set (unspaced_mechanisms (csv_of (conf a) ''sasl_mechanisms'' []))"
    and "conf a ''sasl_users'' = Some (VStr users)"
    and "e \<in> set (split_on CHR '','' users)" and "e \<noteq> []"
    and "count_list e CHR ''='' \<noteq> 1"
  shows "sasl_plain a jaas_blob = Inl ValueError \<and>
         (\<exists>err. init kafka_path a = Inl err) \<and>
         (reaches_sasl a \<longrightarrow> init kafka_path a = Inl ValueError)"
proof -
  let ?mechs = "unspaced_mechanisms (csv_of (conf a) ''sasl_mechanisms'' [])"
  have bad: "length (split_on CHR ''='' e) \<noteq> 2"
    using assms(5) by (simp add: length_split_on)
  have ne: "users \<noteq> []"
    using assms(3,4) by auto
  have u: "csv_of (conf a) ''sasl_users'' [] = users"
    using assms(2) by (rule csv_of_Some)
  have raise: "sasl_plain b j = Inl ValueError" if "conf b ''sasl_users'' = conf a ''sasl_users''"
    for b j
  proof -
    have g: "get_string (conf b) ''sasl_users'' [] TypeError = Inr users"
      using that assms(2) by simp
    have "plain_user_lines (split_on CHR '','' users) (j @ [plain_module]) = Inl ValueError"
      using assms(3) bad by (rule plain_user_lines_bad)
    with g ne show ?thesis by (simp add: sasl_plain_def)
  qed
  have 1: "sasl_plain a jaas_blob = Inl ValueError" by (rule raise) (rule refl)
  have "\<not> list_all (\<lambda>e. length (split_on CHR ''='' e) = 2) (split_on CHR '','' users)"
    using assms(3) bad unfolding list_all_iff by blast
  then have "\<not> plain_ok a"
    unfolding plain_ok_def u using ne by simp
  with assms(1) have "\<not> constructible a" by (simp add: constructible_def)
  then have 2: "\<exists>err. init kafka_path a = Inl err" by (rule not_constructible_raises)
  have 3: "init kafka_path a = Inl ValueError" if "reaches_sasl a"
  proof -
    from that obtain a4 where
      i: "init kafka_path a = and_then (configure_sasl ?mechs a4)
          (\<lambda>(a5, blob). and_then (configure_properties blob a5) (set_commands kafka_path))" and
      su: "conf a4 ''sasl_users'' = conf a ''sasl_users''"
      by (rule init_before_sasl)
    from su have "sasl_plain a4 [''KafkaServer {''] = Inl ValueError" by (rule raise)
    with assms(1) have "configure_sasl ?mechs a4 = Inl ValueError"
      by (rule configure_sasl_plain_raises)
    then show ?thesis unfolding i by simp
  qed
  from 1 2 3 show ?thesis by (intro conjI impI)
qed

theorem malformed_user_entry_witness:
  "''PLAIN'' \<in> set (unspaced_mechanisms
                       (csv_of (conf (example_app bad_users_conf)) ''sasl_mechanisms'' [])) \<and>
   conf (example_app bad_users_conf) ''sasl_users'' = Some (VStr ''alice=secret,bob'') \<and>
   ''bob'' \<in> set (split_on CHR '','' ''alice=secret,bob'') \<and>
   count_list ''bob'' CHR ''='' \<noteq> 1 \<and>
   init None (example_app bad_users_conf) = Inl ValueError"
proof -
  let ?a = "example_app bad_users_conf"
  have m: "unspaced_mechanisms (csv_of (conf ?a) ''sasl_mechanisms'' []) = [''PLAIN'']"
    by (simp add: unspaced_mechanisms_def remove_spaces_def csv_of_def example_defs
          bad_users_conf_def)
  have p: "''PLAIN'' \<in> set (unspaced_mechanisms (csv_of (conf ?a) ''sasl_mechanisms'' []))"
    unfolding m by simp
  have u: "conf ?a ''sasl_users'' = Some (VStr ''alice=secret,bob'')"
    by (simp add: example_defs bad_users_conf_def)
  have e: "''bob'' \<in> set (split_on CHR '','' ''alice=secret,bob'')" by simp
  have ne: "''bob'' \<noteq> []" by simp
  have c: "count_list ''bob'' CHR ''='' \<noteq> 1" by simp
  have l: "csv_of (conf ?a) ''listeners'' ''PLAINTEXT'' = ''PLAINTEXT''"
    by (simp add: csv_of_def example_defs bad_users_conf_def)
  have n: "listener_names ''PLAINTEXT'' [''PLAIN''] = [''PLAINTEXT'', ''SASL_PLAINTEXT'']"
    by (simp add: listener_names_eq add_sasl_listener_def sorted_set_def)
  have r: "reaches_sasl ?a"
    unfolding reaches_sasl_def m l n
    by (simp add: string_or_absent_def example_defs bad_users_conf_def)
  from malformed_user_entry [OF p u e ne c, of "[]" None, THEN conjunct2, THEN conjunct2,
    THEN mp, OF r] p u e c
  show ?thesis by (intro conjI)
qed

text \<open>
  C4: if the version is a string, the deploy script exists and \<open>os.system\<close> returns a
  non-zero value for the deploy command, then \<open>deploy\<close> raises an exception whose message
  holds the command and the value returned, and the app is left as it was; in
  particular \<open>start_cmd\<close> keeps its value.
\<close>

theorem deploy_nonzero_exit:
  assumes "conf a ''version'' = Some (VStr version)"
    and "path_exists a (resource_path a ''deploy.sh'')"
    and "os_system a (deploy_cmd a version) = r" and "r \<noteq> 0"
  shows "fst (deploy a) =
           Inl (Exception (''Deploy '' @ dq @ deploy_cmd a version @ dq @
                           '' returned exit code '' @ show_int r)) \<and>
         snd (deploy a) = a \<and>
         conf (snd (deploy a)) ''start_cmd'' = conf a ''start_cmd''"
proof -
  have "deploy a = (Inl (deploy_failure (deploy_cmd a version) r), a)"
    using assms by (simp add: deploy_def app_get_def Let_def)
  then show ?thesis by (simp add: deploy_failure_def)
qed

theorem deploy_nonzero_exit_witness:
  "os_system (example_app configured_conf)
     (deploy_cmd (example_app configured_conf) ''0.9.0.1'') = 256 \<and>
   deploy_cmd (example_app configured_conf) ''0.9.0.1'' =
     ''/share/deploy.sh 0.9.0.1 '' @ dq @ ''None'' @ dq @ '' '' @
     dq @ ''/cluster/KafkaBrokerApp/kafka/0.9.0.1'' @ dq \<and>
   fst (deploy (example_app configured_conf)) =
     Inl (Exception (''Deploy '' @ dq @ deploy_cmd (example_app configured_conf) ''0.9.0.1'' @ dq @
                     '' returned exit code '' @ ''256'')) \<and>
   conf (snd (deploy (example_app configured_conf))) ''start_cmd'' =
     Some (VStr ''kafka-server-start.sh /app/server.properties'')"
proof -
  let ?a = "example_app configured_conf"
  have v: "conf ?a ''version'' = Some (VStr ''0.9.0.1'')"
    by (simp add: example_defs configured_conf_def)
  have x: "path_exists ?a (resource_path ?a ''deploy.sh'')"
    by (simp add: example_defs)
  have o: "os_system ?a (deploy_cmd ?a ''0.9.0.1'') = 256"
    by (simp add: example_defs)
  have nz: "(256::int) \<noteq> 0" by simp
  have c: "deploy_cmd ?a ''0.9.0.1'' =
     ''/share/deploy.sh 0.9.0.1 '' @ dq @ ''None'' @ dq @ '' '' @
     dq @ ''/cluster/KafkaBrokerApp/kafka/0.9.0.1'' @ dq"
    by (simp add: deploy_cmd_def destdir_def os_path_join_def path_join2_def app_get_def
          example_defs configured_conf_def)
  have s: "show_int 256 = ''256''"
    by (simp add: show_int_def show_nat.simps)
  have st: "conf ?a ''start_cmd'' = Some (VStr ''kafka-server-start.sh /app/server.properties'')"
    by (simp add: example_defs configured_conf_def)
  note T = deploy_nonzero_exit [OF v x o nz]
  have 1: "fst (deploy ?a) =
     Inl (Exception (''Deploy '' @ dq @ deploy_cmd ?a ''0.9.0.1'' @ dq @
                     '' returned exit code '' @ ''256''))"
    using T [THEN conjunct1] unfolding s .
  have 2: "conf (snd (deploy ?a)) ''start_cmd'' =
     Some (VStr ''kafka-server-start.sh /app/server.properties'')"
    using T [THEN conjunct2, THEN conjunct2] unfolding st .
  from o c 1 2 show ?thesis by - (intro conjI; assumption)
qed

end
